theory Spec2Isabelle
  imports Complex_Main "HOL-Library.Word"
begin

unbundle bit_operations_syntax

section \<open>The BAM toolbox of seqkit (cmd/bam\_toolbox.go)\<close>

text \<open>
  The development embeds the functions of \<^verbatim>\<open>cmd/bam_toolbox.go\<close>: the accuracy
  computation on one alignment record (\<^verbatim>\<open>GetSamAlnDetails\<close>, \<^verbatim>\<open>GetSamAcc\<close>,
  \<^verbatim>\<open>GetSamMapped\<close>), the two stages (\<^verbatim>\<open>BamToolAccStats\<close>, \<^verbatim>\<open>BamToolAlnContext\<close>),
  the boundary adapters (\<^verbatim>\<open>NewBamReaderChan\<close>, \<^verbatim>\<open>NewBamSinkChan\<close>,
  \<^verbatim>\<open>NewBamWriterChan\<close>) and the orchestrator (\<^verbatim>\<open>BamToolbox\<close>).

  Conventions.
  \<^item> \<^verbatim>\<open>checkError\<close> and \<^verbatim>\<open>log.Fatal\<close> end the process: the value \<open>Inl (Fatal msg)\<close>.
    A Go panic is \<open>Inl (Panic msg)\<close>.
  \<^item> Go's \<^verbatim>\<open>int\<close> is the 64-bit two's complement integer of the platforms seqkit is
    built for; it is an \<open>int\<close> here and every addition of the source is wrapped
    explicitly by \<open>wrap64\<close>; \<open>int64 x\<close> says that \<open>x\<close> is a value of that type.
  \<^item> A channel carries records in arrival order from one producer to one consumer, so a
    stage is a function from the list of records it receives to the list it sends.
  \<^item> What the source gets from other packages (the YAML reader, the regular expression
    engine, the FASTA index, the BAM codec, \<^verbatim>\<open>fmt.Sprintf\<close>) is a parameter of the
    function that uses it, or a small definition of the documented behaviour of the Go
    standard library (\<^verbatim>\<open>os.Open\<close>, \<^verbatim>\<open>os.Create\<close>, \<^verbatim>\<open>(*os.File).Write\<close>,
    \<^verbatim>\<open>ioutil.ReadFile\<close>).
\<close>

datatype error = Fatal string | Panic string

definition wrap64 :: "int \<Rightarrow> int" where
  "wrap64 x = (x + 2 ^ 63) mod 2 ^ 64 - 2 ^ 63"

definition int64 :: "int \<Rightarrow> bool" where
  "int64 x = (- (2 ^ 63) \<le> x \<and> x < 2 ^ 63)"

subsection \<open>float64\<close>

text \<open>
  A \<^verbatim>\<open>float64\<close> is a finite real, an infinity or NaN. An arithmetic operation on finite
  operands computes the exact real result and rounds it; the rounding \<open>rnd\<close> (to the
  nearest double, to an infinity on overflow) is a parameter of every operation, and the
  theorems below hold for every \<open>rnd\<close> unless they say which property of it they use.
  The operations on infinities, NaN and a zero divisor are those of IEEE 754, which Go
  follows: a floating-point division by zero does not panic. The two zeros are not
  told apart; every divisor of this program is the conversion of an integer or the
  counter \<^verbatim>\<open>nr\<close>, neither of which is ever the negative zero.
\<close>

datatype float64 = Finite real | PosInf | NegInf | NaN

type_synonym rounding = "real \<Rightarrow> float64"

definition signedInf :: "bool \<Rightarrow> float64" where
  "signedInf neg = (if neg then NegInf else PosInf)"

fun isNeg :: "float64 \<Rightarrow> bool" where
  "isNeg (Finite a) = (a < 0)"
| "isNeg PosInf = False"
| "isNeg NegInf = True"
| "isNeg NaN = False"

fun isInf :: "float64 \<Rightarrow> bool" where
  "isInf PosInf = True"
| "isInf NegInf = True"
| "isInf _ = False"

fun isZero :: "float64 \<Rightarrow> bool" where
  "isZero (Finite a) = (a = 0)"
| "isZero _ = False"

fun isFinite :: "float64 \<Rightarrow> bool" where
  "isFinite (Finite a) = True"
| "isFinite _ = False"

fun valof :: "float64 \<Rightarrow> real" where
  "valof (Finite a) = a"
| "valof _ = 0"

definition f64_of_int :: "rounding \<Rightarrow> int \<Rightarrow> float64" where
  "f64_of_int rnd i = rnd (real_of_int i)"

definition fadd :: "rounding \<Rightarrow> float64 \<Rightarrow> float64 \<Rightarrow> float64" where
  "fadd rnd a b =
     (if a = NaN \<or> b = NaN \<or> (isInf a \<and> isInf b \<and> a \<noteq> b) then NaN
      else if isInf a then a
      else if isInf b then b
      else rnd (valof a + valof b))"

definition fsub :: "rounding \<Rightarrow> float64 \<Rightarrow> float64 \<Rightarrow> float64" where
  "fsub rnd a b =
     (if a = NaN \<or> b = NaN \<or> (isInf a \<and> isInf b \<and> a = b) then NaN
      else if isInf a then a
      else if isInf b then signedInf (\<not> isNeg b)
      else rnd (valof a - valof b))"

definition fmul :: "rounding \<Rightarrow> float64 \<Rightarrow> float64 \<Rightarrow> float64" where
  "fmul rnd a b =
     (if a = NaN \<or> b = NaN \<or> (isZero a \<and> isInf b) \<or> (isInf a \<and> isZero b) then NaN
      else if isInf a \<or> isInf b then signedInf (isNeg a \<noteq> isNeg b)
      else rnd (valof a * valof b))"

definition fdiv :: "rounding \<Rightarrow> float64 \<Rightarrow> float64 \<Rightarrow> float64" where
  "fdiv rnd a b =
     (if a = NaN \<or> b = NaN \<or> (isZero a \<and> isZero b) \<or> (isInf a \<and> isInf b) then NaN
      else if isInf a \<or> isZero b then signedInf (isNeg a \<noteq> isNeg b)
      else if isInf b then Finite 0
      else rnd (valof a / valof b))"

subsection \<open>Alignment records\<close>

text \<open>
  The fields of \<^verbatim>\<open>sam.Record\<close> the toolbox reads. \<^verbatim>\<open>sam.Flags\<close> is a \<^verbatim>\<open>uint16\<close> and
  \<^verbatim>\<open>sam.Unmapped\<close> its bit 2. A CIGAR operation has a type and a length; a BAM file
  stores the length in 28 bits, and the theorems that depend on it assume that the
  lengths of the operations of one record sum to less than \<open>2 ^ 63\<close>.
  The value of an auxiliary field has one of Go's dynamic types; the ten integer types
  of the type switch carry their bits, every other type carries the text of
  \<^verbatim>\<open>aux.String()\<close>.
\<close>

datatype CigarOpType =
    CigarMatch | CigarInsertion | CigarDeletion | CigarSkipped | CigarSoftClipped
  | CigarHardClipped | CigarPadded | CigarEqual | CigarMismatch | CigarBack

datatype CigarOp = CigarOp CigarOpType nat

fun opType :: "CigarOp \<Rightarrow> CigarOpType" where
  "opType (CigarOp t n) = t"

fun opLen :: "CigarOp \<Rightarrow> int" where
  "opLen (CigarOp t n) = int n"

datatype AuxValue =
    AuxInt "64 word" | AuxInt8 "8 word" | AuxInt16 "16 word" | AuxInt32 "32 word"
  | AuxInt64 "64 word" | AuxUint "64 word" | AuxUint8 "8 word" | AuxUint16 "16 word"
  | AuxUint32 "32 word" | AuxUint64 "64 word" | AuxOther string

record sam_Record =
  RefName :: string
  Pos :: int
  Flags :: "16 word"
  Cigar :: "CigarOp list"
  AuxFields :: "(string \<times> AuxValue) list"

definition Unmapped :: "16 word" where
  "Unmapped = push_bit 2 1"

definition Tag :: "sam_Record \<Rightarrow> string \<Rightarrow> AuxValue option" where
  "Tag r t = map_of (AuxFields r) t"

subsection \<open>GetSamAlnDetails, GetSamMapped, GetSamAcc\<close>

record AlnDetails =
  Mismatch :: int
  MatchMismatch :: int
  Insertion :: int
  Deletion :: int
  Skip :: int
  Len :: int
  Acc :: float64
  WAcc :: float64

text \<open>
  The type switch on the tag's value: \<^verbatim>\<open>int(v)\<close> keeps the value of every signed type
  and of the unsigned types of at most 32 bits, and reinterprets the 64 bits of a
  \<^verbatim>\<open>uint\<close> or \<^verbatim>\<open>uint64\<close>.
\<close>

fun decodeNM :: "AuxValue \<Rightarrow> error + int" where
  "decodeNM (AuxInt w) = Inr (sint w)"
| "decodeNM (AuxInt8 w) = Inr (sint w)"
| "decodeNM (AuxInt16 w) = Inr (sint w)"
| "decodeNM (AuxInt32 w) = Inr (sint w)"
| "decodeNM (AuxInt64 w) = Inr (sint w)"
| "decodeNM (AuxUint w) = Inr (sint w)"
| "decodeNM (AuxUint8 w) = Inr (uint w)"
| "decodeNM (AuxUint16 w) = Inr (uint w)"
| "decodeNM (AuxUint32 w) = Inr (uint w)"
| "decodeNM (AuxUint64 w) = Inr (sint w)"
| "decodeNM (AuxOther s) = Inl (Panic (''Could not parse NM tag: '' @ s))"

text \<open>The loop over the CIGAR: the counters are \<open>(mm, ins, del, skip)\<close>.\<close>

fun cigarStep :: "CigarOp \<Rightarrow> int \<times> int \<times> int \<times> int \<Rightarrow> int \<times> int \<times> int \<times> int" where
  "cigarStep co (mm, ins, del, skip) =
     (case opType co of
        CigarMatch \<Rightarrow> (wrap64 (mm + opLen co), ins, del, skip)
      | CigarEqual \<Rightarrow> (wrap64 (mm + opLen co), ins, del, skip)
      | CigarMismatch \<Rightarrow> (wrap64 (mm + opLen co), ins, del, skip)
      | CigarInsertion \<Rightarrow> (mm, wrap64 (ins + opLen co), del, skip)
      | CigarDeletion \<Rightarrow> (mm, ins, wrap64 (del + opLen co), skip)
      | CigarSkipped \<Rightarrow> (mm, ins, del, wrap64 (skip + opLen co))
      | _ \<Rightarrow> (mm, ins, del, skip))"

definition cigarCounts :: "CigarOp list \<Rightarrow> int \<times> int \<times> int \<times> int" where
  "cigarCounts cig = fold cigarStep cig (0, 0, 0, 0)"

definition GetSamAlnDetails :: "rounding \<Rightarrow> sam_Record \<Rightarrow> error + AlnDetails" where
  "GetSamAlnDetails rnd r =
     (case Tag r ''NM'' of
        None \<Rightarrow> Inl (Panic ''no NM tag'')
      | Some aux \<Rightarrow>
          (case decodeNM aux of
             Inl e \<Rightarrow> Inl e
           | Inr mismatch \<Rightarrow>
               (case cigarCounts (Cigar r) of
                  (mm, ins, del, skip) \<Rightarrow>
                    (let len = wrap64 (wrap64 (mm + ins) + del);
                         acc = fmul rnd
                                 (fsub rnd (Finite 1)
                                    (fdiv rnd (f64_of_int rnd mismatch) (f64_of_int rnd len)))
                                 (Finite 100)
                     in Inr \<lparr> Mismatch = mismatch, MatchMismatch = mm, Insertion = ins,
                              Deletion = del, Skip = skip, Len = len, Acc = acc,
                              WAcc = fmul rnd acc (f64_of_int rnd len) \<rparr>))))"

definition GetSamMapped :: "sam_Record \<Rightarrow> bool" where
  "GetSamMapped r = (Flags r AND Unmapped = 0)"

definition GetSamAcc :: "rounding \<Rightarrow> sam_Record \<Rightarrow> error + float64" where
  "GetSamAcc rnd r =
     (case Tag r ''NM'' of
        None \<Rightarrow> Inl (Panic ''no NM tag'')
      | Some aux \<Rightarrow>
          (case decodeNM aux of
             Inl e \<Rightarrow> Inl e
           | Inr mismatch \<Rightarrow>
               (case cigarCounts (Cigar r) of
                  (mm, ins, del, skip) \<Rightarrow>
                    Inr (fmul rnd
                           (fsub rnd (Finite 1)
                              (fdiv rnd (f64_of_int rnd mismatch)
                                 (f64_of_int rnd (wrap64 (wrap64 (mm + ins) + del)))))
                           (Finite 100)))))"

subsection \<open>The configuration document\<close>

text \<open>
  What the stages and the orchestrator use of the YAML reader: a document is a scalar or
  a mapping; \<^verbatim>\<open>Get\<close> of a key that is absent, or of a document that is no mapping, is
  the null document; \<^verbatim>\<open>String\<close>, \<^verbatim>\<open>Int\<close> and \<^verbatim>\<open>Bool\<close> fail on a value of another
  type; \<^verbatim>\<open>GetMapKeys\<close> lists the keys of a mapping. The list of pairs of \<open>YMap\<close> is in
  the order in which \<^verbatim>\<open>GetMapKeys\<close> lists the keys.
\<close>

datatype Yaml = YNull | YBool bool | YInt int | YString string | YMap "(string \<times> Yaml) list"

fun Yaml_Get :: "Yaml \<Rightarrow> string \<Rightarrow> Yaml" where
  "Yaml_Get (YMap kvs) k = (case map_of kvs k of None \<Rightarrow> YNull | Some v \<Rightarrow> v)"
| "Yaml_Get _ k = YNull"

fun Yaml_String :: "Yaml \<Rightarrow> string + string" where
  "Yaml_String (YString s) = Inr s"
| "Yaml_String _ = Inl ''type assertion to string failed''"

fun Yaml_Int :: "Yaml \<Rightarrow> string + int" where
  "Yaml_Int (YInt i) = Inr i"
| "Yaml_Int _ = Inl ''type assertion to int failed''"

fun Yaml_Bool :: "Yaml \<Rightarrow> string + bool" where
  "Yaml_Bool (YBool b) = Inr b"
| "Yaml_Bool _ = Inl ''type assertion to bool failed''"

fun Yaml_GetMapKeys :: "Yaml \<Rightarrow> string + string list" where
  "Yaml_GetMapKeys (YMap kvs) = Inr (map fst kvs)"
| "Yaml_GetMapKeys _ = Inl ''type assertion to map failed''"

subsection \<open>Files\<close>

text \<open>
  The part of the operating system the toolbox touches: the files by path, the paths at
  which \<^verbatim>\<open>os.Create\<close> succeeds, and what has been written to the standard streams.
  \<^verbatim>\<open>os.Open\<close> opens an existing file for reading only; \<^verbatim>\<open>os.Create\<close> creates or
  truncates a file and opens it for reading and writing, and returns a nil file with
  its error. A write to a nil file or to a file opened for reading returns an error and
  writes nothing.
\<close>

record OS =
  files :: "string \<rightharpoonup> string"
  creatable :: "string \<Rightarrow> bool"
  stdout :: string
  stderr :: string

datatype os_File = Stdin | Stdout | Stderr | NilFile | OpenFile string bool

definition os_Open :: "OS \<Rightarrow> string \<Rightarrow> string + os_File" where
  "os_Open w path =
     (if path \<in> dom (files w) then Inr (OpenFile path False)
      else Inl (''open '' @ path @ '': no such file or directory''))"

definition os_Create :: "OS \<Rightarrow> string \<Rightarrow> (string + os_File) \<times> OS" where
  "os_Create w path =
     (if creatable w path
      then (Inr (OpenFile path True), w\<lparr>files := (files w)(path \<mapsto> [])\<rparr>)
      else (Inl (''open '' @ path @ '': cannot create''), w))"

fun File_Write :: "os_File \<Rightarrow> string \<Rightarrow> OS \<Rightarrow> string option \<times> OS" where
  "File_Write NilFile s w = (Some ''invalid argument'', w)"
| "File_Write Stdin s w = (Some ''bad file descriptor'', w)"
| "File_Write Stdout s w = (None, w\<lparr>stdout := stdout w @ s\<rparr>)"
| "File_Write Stderr s w = (None, w\<lparr>stderr := stderr w @ s\<rparr>)"
| "File_Write (OpenFile path writable) s w =
     (if writable
      then (None, w\<lparr>files := (files w)(path \<mapsto> (case files w path of None \<Rightarrow> s | Some old \<Rightarrow> old @ s))\<rparr>)
      else (Some ''bad file descriptor'', w))"

definition ioutil_ReadFile :: "OS \<Rightarrow> string \<Rightarrow> string + string" where
  "ioutil_ReadFile w path =
     (case files w path of
        None \<Rightarrow> Inl (''open '' @ path @ '': no such file or directory'')
      | Some content \<Rightarrow> Inr content)"

subsection \<open>The registry and the parameters of a stage\<close>

datatype StageFn = UseAlnContext | UseAccStats | UseListTools

record BamTool =
  Name :: string
  Desc :: string
  Use :: StageFn

type_synonym Toolshed = "string \<rightharpoonup> BamTool"

definition NewToolshed :: Toolshed where
  "NewToolshed = map_of
     [(''AlnContext'', \<lparr> Name = ''AlnContext'',
         Desc = ''filter records by the sequence context at start and end'',
         Use = UseAlnContext \<rparr>),
      (''AccStats'', \<lparr> Name = ''AccStats'',
         Desc = ''calculates mean accuracy weighted by aligment lengths'',
         Use = UseAccStats \<rparr>),
      (''help'', \<lparr> Name = ''help'', Desc = ''list all tools with description'',
         Use = UseListTools \<rparr>)]"

text \<open>
  A channel is named by the order of its allocation; \<open>None\<close> is the nil channel. The
  parameters of a stage are those of the source.
\<close>

type_synonym chan = "nat option"

record BamToolParams =
  Yaml :: Yaml
  InChan :: chan
  OutChan :: chan
  Quiet :: bool
  Silent :: bool
  Threads :: int
  Rank :: nat
  Shed :: Toolshed

subsection \<open>BamToolAccStats\<close>

text \<open>
  The stage receives the records \<open>inp\<close> on \<^verbatim>\<open>p.InChan\<close>. The state of its loop is the four
  accumulators of the source and the records sent to \<^verbatim>\<open>p.OutChan\<close> so far.
  \<open>Sprintf\<close> stands for \<^verbatim>\<open>fmt.Sprintf("%.3f\t%.3f\n", MeanAcc, WeightedAcc)\<close>.
\<close>

record AccState =
  totalLen :: int
  accSum :: float64
  wAccSum :: float64
  nr :: float64
  sent :: "sam_Record list"

definition AccInit :: AccState where
  "AccInit = \<lparr> totalLen = 0, accSum = Finite 0, wAccSum = Finite 0, nr = Finite 0, sent = [] \<rparr>"

fun AccLoop :: "rounding \<Rightarrow> sam_Record list \<Rightarrow> AccState \<Rightarrow> error + AccState" where
  "AccLoop rnd [] s = Inr s"
| "AccLoop rnd (r # rs) s =
     (if GetSamMapped r
      then (case GetSamAlnDetails rnd r of
              Inl e \<Rightarrow> Inl e
            | Inr info \<Rightarrow>
                AccLoop rnd rs
                  (s\<lparr> totalLen := wrap64 (totalLen s + Len info),
                      wAccSum := fadd rnd (wAccSum s) (WAcc info),
                      accSum := fadd rnd (accSum s) (Acc info),
                      nr := fadd rnd (nr s) (Finite 1),
                      sent := sent s @ [r] \<rparr>))
      else AccLoop rnd rs (s\<lparr> sent := sent s @ [r] \<rparr>))"

definition WeightedAcc :: "rounding \<Rightarrow> AccState \<Rightarrow> float64" where
  "WeightedAcc rnd s = fdiv rnd (wAccSum s) (f64_of_int rnd (totalLen s))"

definition MeanAcc :: "rounding \<Rightarrow> AccState \<Rightarrow> float64" where
  "MeanAcc rnd s = fdiv rnd (accSum s) (nr s)"

definition tsvHeader :: string where
  "tsvHeader = ''AccMean'' @ [CHR 0x09] @ ''WeightedAccMean'' @ [CHR 0x0A]"

definition BamToolAccStats ::
  "rounding \<Rightarrow> (float64 \<Rightarrow> float64 \<Rightarrow> string) \<Rightarrow> BamToolParams \<Rightarrow> sam_Record list \<Rightarrow> OS
     \<Rightarrow> error + (sam_Record list \<times> OS)" where
  "BamToolAccStats rnd Sprintf p inp w =
     (case Yaml_String (Yaml_Get (Yaml p) ''Tsv'') of
        Inl err \<Rightarrow> Inl (Fatal err)
      | Inr tsvFile \<Rightarrow>
          (case (if tsvFile \<noteq> ''-''
                 then (case os_Create w tsvFile of
                         (Inr fh, w') \<Rightarrow> (fh, w')
                       | (Inl err, w') \<Rightarrow> (NilFile, w'))
                 else (Stderr, w)) of
             (tsvFh, w1) \<Rightarrow>
               (case AccLoop rnd inp AccInit of
                  Inl e \<Rightarrow> Inl e
                | Inr s \<Rightarrow>
                    (let w2 = snd (File_Write tsvFh tsvHeader w1);
                         w3 = snd (File_Write tsvFh (Sprintf (MeanAcc rnd s) (WeightedAcc rnd s)) w2)
                     in Inr (sent s, w3)))))"

subsection \<open>BamToolAlnContext\<close>

text \<open>
  What the stage uses of other packages: \<^verbatim>\<open>regexp.Compile\<close> and \<^verbatim>\<open>MatchString\<close>; the end
  of a record on the reference, \<^verbatim>\<open>r.End()\<close>; of the FASTA index package the test that a
  file is missing, \<^verbatim>\<open>fai.CreateWithIDRegexp\<close>, \<^verbatim>\<open>fai.Read\<close>, \<^verbatim>\<open>fai.NewWithIndex\<close> and
  \<^verbatim>\<open>SubSeq\<close>, each returning its error or its value.
\<close>

record ('rx, 'idx, 'faidx) Ext =
  regexp_Compile :: "string \<Rightarrow> string + 'rx"
  MatchString :: "'rx \<Rightarrow> string \<Rightarrow> bool"
  Record_End :: "sam_Record \<Rightarrow> int"
  fileNotExists :: "string \<Rightarrow> bool"
  fai_CreateWithIDRegexp :: "string \<Rightarrow> string \<Rightarrow> string + 'idx"
  fai_Read :: "string \<Rightarrow> string + 'idx"
  fai_NewWithIndex :: "string \<Rightarrow> 'idx \<Rightarrow> string + 'faidx"
  Faidx_SubSeq :: "'faidx \<Rightarrow> string \<Rightarrow> int \<Rightarrow> int \<Rightarrow> string + string"

record ('idx, 'faidx) RefWithFaidx =
  Fasta :: string
  IdxFile :: string
  idx :: 'idx
  faidx :: 'faidx
  Cache :: bool

definition IdxSubSeq ::
  "('rx, 'idx, 'faidx) Ext \<Rightarrow> ('idx, 'faidx) RefWithFaidx \<Rightarrow> string \<Rightarrow> int \<Rightarrow> int
     \<Rightarrow> string + string" where
  "IdxSubSeq ext i chrom start end' = Faidx_SubSeq ext (faidx i) chrom start end'"

definition NewRefWitdFaidx ::
  "('rx, 'idx, 'faidx) Ext \<Rightarrow> string \<Rightarrow> bool \<Rightarrow> bool \<Rightarrow> error + ('idx, 'faidx) RefWithFaidx" where
  "NewRefWitdFaidx ext file cache quiet =
     (let fileFai = file @ ''.seqkit.fai'' in
      case (if fileNotExists ext fileFai then fai_CreateWithIDRegexp ext file fileFai
            else fai_Read ext fileFai) of
        Inl err \<Rightarrow> Inl (Fatal err)
      | Inr ix \<Rightarrow>
          (case fai_NewWithIndex ext file ix of
             Inl err \<Rightarrow> Inl (Fatal err)
           | Inr fx \<Rightarrow>
               Inr \<lparr> Fasta = file, IdxFile = fileFai, idx = ix, faidx = fx, Cache = cache \<rparr>))"

text \<open>
  \<^verbatim>\<open>regexp.MustCompile\<close> panics on a pattern that does not compile. A pattern is read with
  \<^verbatim>\<open>String()\<close>; when that fails (the key is absent or no string) the regular expression
  stays nil, here \<open>None\<close>.
\<close>

definition optRegexp :: "('rx, 'idx, 'faidx) Ext \<Rightarrow> Yaml \<Rightarrow> error + 'rx option" where
  "optRegexp ext y =
     (case Yaml_String y of
        Inl err \<Rightarrow> Inr None
      | Inr pat \<Rightarrow>
          (case regexp_Compile ext pat of
             Inl err \<Rightarrow> Inl (Panic (''regexp: Compile('' @ pat @ ''): '' @ err))
           | Inr rx \<Rightarrow> Inr (Some rx)))"

text \<open>
  One side of the test of a record: \<open>Inr True\<close> when the pattern is set and matches the
  fetched sequence (the source goes on to the next record), \<open>Inr False\<close> when the pattern
  is nil or does not match, and the fatal error of a fetch that fails.
\<close>

definition sideTest ::
  "('rx, 'idx, 'faidx) Ext \<Rightarrow> ('idx, 'faidx) RefWithFaidx \<Rightarrow> 'rx option \<Rightarrow> string \<Rightarrow> int \<Rightarrow> int
     \<Rightarrow> error + bool" where
  "sideTest ext i reg chrom start end' =
     (case reg of
        None \<Rightarrow> Inr False
      | Some rx \<Rightarrow>
          (case IdxSubSeq ext i chrom start end' of
             Inl err \<Rightarrow> Inl (Fatal err)
           | Inr s \<Rightarrow> Inr (MatchString ext rx s)))"

fun AlnContextLoop ::
  "('rx, 'idx, 'faidx) Ext \<Rightarrow> ('idx, 'faidx) RefWithFaidx \<Rightarrow> 'rx option \<Rightarrow> 'rx option \<Rightarrow> int \<Rightarrow> int
     \<Rightarrow> sam_Record list \<Rightarrow> sam_Record list \<Rightarrow> error + sam_Record list" where
  "AlnContextLoop ext i regStart regEnd leftShift rightShift [] out = Inr out"
| "AlnContextLoop ext i regStart regEnd leftShift rightShift (r # rs) out =
     (let chrom = RefName r; startPos = Pos r; endPos = Record_End ext r in
      case sideTest ext i regStart chrom (wrap64 (startPos + leftShift))
             (wrap64 (startPos + rightShift)) of
        Inl e \<Rightarrow> Inl e
      | Inr True \<Rightarrow> AlnContextLoop ext i regStart regEnd leftShift rightShift rs out
      | Inr False \<Rightarrow>
          (case sideTest ext i regEnd chrom (wrap64 (endPos + leftShift))
                  (wrap64 (endPos + rightShift)) of
             Inl e \<Rightarrow> Inl e
           | Inr True \<Rightarrow> AlnContextLoop ext i regStart regEnd leftShift rightShift rs out
           | Inr False \<Rightarrow>
               AlnContextLoop ext i regStart regEnd leftShift rightShift rs (out @ [r])))"

definition BamToolAlnContext ::
  "('rx, 'idx, 'faidx) Ext \<Rightarrow> BamToolParams \<Rightarrow> sam_Record list \<Rightarrow> error + sam_Record list" where
  "BamToolAlnContext ext p inp =
     (case Yaml_String (Yaml_Get (Yaml p) ''Ref'') of
        Inl err \<Rightarrow> Inl (Fatal err)
      | Inr ref \<Rightarrow>
     (case Yaml_Int (Yaml_Get (Yaml p) ''LeftShift'') of
        Inl err \<Rightarrow> Inl (Fatal err)
      | Inr leftShift \<Rightarrow>
     (case Yaml_Int (Yaml_Get (Yaml p) ''RightShift'') of
        Inl err \<Rightarrow> Inl (Fatal err)
      | Inr rightShift \<Rightarrow>
     (case optRegexp ext (Yaml_Get (Yaml p) ''RegexStart'') of
        Inl e \<Rightarrow> Inl e
      | Inr regStart \<Rightarrow>
     (case optRegexp ext (Yaml_Get (Yaml p) ''RegexEnd'') of
        Inl e \<Rightarrow> Inl e
      | Inr regEnd \<Rightarrow>
     (case NewRefWitdFaidx ext ref False (Silent p) of
        Inl e \<Rightarrow> Inl e
      | Inr i \<Rightarrow> AlnContextLoop ext i regStart regEnd leftShift rightShift inp []))))))"

subsection \<open>The boundary adapters\<close>

text \<open>
  \<^verbatim>\<open>make(chan *sam.Record, n)\<close> allocates the next channel and records its capacity:
  the list holds the capacity of every channel allocated so far, and a channel is its
  position in the list.
\<close>

definition makeChan :: "nat \<Rightarrow> nat list \<Rightarrow> chan \<times> nat list" where
  "makeChan cap cs = (Some (length cs), cs @ [cap])"

text \<open>
  \<^verbatim>\<open>NewBamReaderChan\<close>: the channel, then the input (\<^verbatim>\<open>os.Open\<close> unless the file is
  \<^verbatim>\<open>-\<close>), then the decoder, whose error is dropped: \<open>bam_NewReader\<close> gives the header
  the decoder read, or \<open>None\<close> for the nil reader of a failed \<^verbatim>\<open>bam.NewReader\<close>. The
  result is the channel, the reader and the allocated channels.
\<close>

definition NewBamReaderChan ::
  "(OS \<Rightarrow> os_File \<Rightarrow> 'h option) \<Rightarrow> OS \<Rightarrow> string \<Rightarrow> nat \<Rightarrow> nat \<Rightarrow> int \<Rightarrow> nat list
     \<Rightarrow> error + (chan \<times> 'h option \<times> nat list)" where
  "NewBamReaderChan bam_NewReader w inFile cp buff threads cs =
     (case makeChan cp cs of
        (outChan, cs') \<Rightarrow>
          (case (if inFile \<noteq> ''-'' then os_Open w inFile else Inr Stdin) of
             Inl err \<Rightarrow> Inl (Fatal err)
           | Inr fh \<Rightarrow> Inr (outChan, bam_NewReader w fh, cs')))"

definition NewBamSinkChan :: "nat \<Rightarrow> nat list \<Rightarrow> chan \<times> nat list" where
  "NewBamSinkChan cp cs = makeChan cp cs"

text \<open>
  \<^verbatim>\<open>NewBamWriterChan\<close>: the channel, made with the capacity \<^verbatim>\<open>buff\<close>, then the output
  (\<^verbatim>\<open>os.Open\<close> unless the file is \<^verbatim>\<open>-\<close>). The result is the channel, the file the
  writer task writes to and the allocated channels.
\<close>

definition NewBamWriterChan ::
  "OS \<Rightarrow> string \<Rightarrow> 'h \<Rightarrow> nat \<Rightarrow> nat \<Rightarrow> int \<Rightarrow> nat list \<Rightarrow> error + (chan \<times> os_File \<times> nat list)" where
  "NewBamWriterChan w inFile head cp buff threads cs =
     (case makeChan buff cs of
        (outChan, cs') \<Rightarrow>
          (case (if inFile \<noteq> ''-'' then os_Open w inFile else Inr Stdout) of
             Inl err \<Rightarrow> Inl (Fatal err)
           | Inr fh \<Rightarrow> Inr (outChan, fh, cs')))"

text \<open>
  The task \<^verbatim>\<open>NewBamWriterChan\<close> starts. The BAM encoder and the buffered writer hand the
  encoded stream, \<open>encode head recs\<close>, to the file. The error of a write reaches
  \<^verbatim>\<open>checkError\<close> only when a call of \<^verbatim>\<open>w.Write\<close> returns it, which depends on how much
  the encoder and the buffer hold back (\<open>noticed\<close>); the errors of \<^verbatim>\<open>w.Close\<close> and
  \<^verbatim>\<open>bio.Flush\<close> are dropped.
\<close>

definition BamWriterTask ::
  "('h \<Rightarrow> sam_Record list \<Rightarrow> string) \<Rightarrow> bool \<Rightarrow> os_File \<Rightarrow> 'h \<Rightarrow> sam_Record list \<Rightarrow> OS
     \<Rightarrow> error option \<times> OS" where
  "BamWriterTask encode noticed fh head recs w =
     (case File_Write fh (encode head recs) w of
        (None, w') \<Rightarrow> (None, w')
      | (Some err, w') \<Rightarrow> (if noticed then Some (Fatal err) else None, w'))"

subsection \<open>BamToolbox\<close>

definition chanCap :: nat where
  "chanCap = 5000"

definition ioBuff :: nat where
  "ioBuff = 1024 * 128"

definition paramFields :: "string \<Rightarrow> bool" where
  "paramFields k = (k = ''Sink'')"

datatype Terminal = SinkTask | WriterTask os_File

text \<open>
  What the orchestrator has built when it stops: the capacities of the channels it
  allocated, the reader's channel, the terminal consumer and its channel, and the stage
  tasks it started with \<^verbatim>\<open>go wt.Use(params)\<close>, in the order of their start.
\<close>

record Orch =
  chans :: "nat list"
  readerChan :: chan
  terminal :: "Terminal option"
  lastOut :: chan
  launched :: "(BamTool \<times> BamToolParams) list"

definition OrchInit :: Orch where
  "OrchInit = \<lparr> chans = [], readerChan = None, terminal = None, lastOut = None, launched = [] \<rparr>"

text \<open>
  Lines 145 to 159: the configuration is parsed; when its first key is \<^verbatim>\<open>Yaml\<close> the
  document is read again from the file the key names. \<^verbatim>\<open>ty[0]\<close> panics on a mapping
  without keys, before the test of \<^verbatim>\<open>len(ty)\<close>.
\<close>

definition loadConfig :: "(string \<Rightarrow> string + Yaml) \<Rightarrow> OS \<Rightarrow> string \<Rightarrow> error + Yaml" where
  "loadConfig NewYaml w toolYaml =
     (case NewYaml (if toolYaml = ''help'' then ''help: true'' else toolYaml) of
        Inl err \<Rightarrow> Inl (Fatal err)
      | Inr y \<Rightarrow>
     (case Yaml_GetMapKeys y of
        Inl err \<Rightarrow> Inl (Fatal err)
      | Inr ty \<Rightarrow>
     (case ty of
        [] \<Rightarrow> Inl (Panic ''index out of range'')
      | k # ks \<Rightarrow>
          (if k = ''Yaml''
           then (case Yaml_String (Yaml_Get y ''Yaml'') of
                   Inl err \<Rightarrow> Inl (Fatal err)
                 | Inr conf \<Rightarrow>
                (case ioutil_ReadFile w conf of
                   Inl err \<Rightarrow> Inl (Fatal err)
                 | Inr cb \<Rightarrow>
                (case NewYaml cb of
                   Inl err \<Rightarrow> Inl (Fatal err)
                 | Inr y' \<Rightarrow> Inr y')))
           else Inr y))))"

text \<open>
  The loop over \<^verbatim>\<open>clearKeys\<close>, lines 196 to 219; \<open>n\<close> is \<^verbatim>\<open>len(clearKeys)\<close>. The message
  of \<^verbatim>\<open>log.Fatal("Unknown tool:", tool)\<close> is the concatenation of its two strings.
  The loop records each task it starts with \<^verbatim>\<open>go wt.Use(params)\<close>; what a started task
  can do to the process while the loop goes on is \<open>processEnds\<close> below.
\<close>

primrec launchLoop ::
  "Toolshed \<Rightarrow> Yaml \<Rightarrow> bool \<Rightarrow> bool \<Rightarrow> int \<Rightarrow> nat \<Rightarrow> string list \<Rightarrow> nat \<Rightarrow> chan \<Rightarrow> chan \<Rightarrow> Orch
     \<Rightarrow> error option \<times> Orch" where
  "launchLoop shed y quiet silent threads n [] rank nextIn nextOut s = (None, s)"
| "launchLoop shed y quiet silent threads n (tool # rest) rank nextIn nextOut s =
     (case shed tool of
        None \<Rightarrow> (Some (Fatal (''Unknown tool:'' @ tool)), s)
      | Some wt \<Rightarrow>
          (let nextOut' = (if int rank = int n - 1 then lastOut s else nextOut);
               params = \<lparr> Yaml = Yaml_Get y tool, InChan = nextIn, OutChan = nextOut',
                          Quiet = quiet, Silent = silent, Threads = threads, Rank = rank,
                          Shed = shed \<rparr>
           in case makeChan chanCap (chans s) of
                (fresh, cs) \<Rightarrow>
                  launchLoop shed y quiet silent threads n rest (rank + 1) nextOut' fresh
                    (s\<lparr> chans := cs, launched := launched s @ [(wt, params)] \<rparr>)))"

definition BamToolbox ::
  "(string \<Rightarrow> string + Yaml) \<Rightarrow> (OS \<Rightarrow> os_File \<Rightarrow> 'h option) \<Rightarrow> OS
     \<Rightarrow> string \<Rightarrow> string \<Rightarrow> string \<Rightarrow> bool \<Rightarrow> bool \<Rightarrow> int \<Rightarrow> error option \<times> Orch" where
  "BamToolbox NewYaml bam_NewReader w toolYaml inFile outFile quiet silent threads =
     (case loadConfig NewYaml w toolYaml of
        Inl e \<Rightarrow> (Some e, OrchInit)
      | Inr y \<Rightarrow>
     (case Yaml_GetMapKeys y of
        Inl err \<Rightarrow> (Some (Fatal err), OrchInit)
      | Inr tkeys \<Rightarrow>
     (case tkeys of
        [] \<Rightarrow> (Some (Panic ''index out of range''), OrchInit)
      | k # ks \<Rightarrow>
     (case (if k \<noteq> ''help''
            then (case NewBamReaderChan bam_NewReader w inFile chanCap ioBuff threads [] of
                    Inl e \<Rightarrow> Inl e
                  | Inr (inChan, bamReader, cs) \<Rightarrow>
                      (case Yaml_Bool (Yaml_Get y ''Sink'') of
                         Inr True \<Rightarrow>
                           (case NewBamSinkChan chanCap cs of
                              (out, cs') \<Rightarrow>
                                Inr \<lparr> chans = cs', readerChan = inChan, terminal = Some SinkTask,
                                      lastOut = out, launched = [] \<rparr>)
                       | _ \<Rightarrow>
                           (case bamReader of
                              None \<Rightarrow> Inl (Panic ''invalid memory address or nil pointer dereference'')
                            | Some head \<Rightarrow>
                                (case NewBamWriterChan w outFile head chanCap ioBuff threads cs of
                                   Inl e \<Rightarrow> Inl e
                                 | Inr (out, fh, cs') \<Rightarrow>
                                     Inr \<lparr> chans = cs', readerChan = inChan,
                                           terminal = Some (WriterTask fh), lastOut = out,
                                           launched = [] \<rparr>))))
            else Inr OrchInit) of
        Inl e \<Rightarrow> (Some e, OrchInit)
      | Inr s \<Rightarrow>
          (case makeChan chanCap (chans s) of
             (outChan, cs) \<Rightarrow>
               (let clearKeys = filter (\<lambda>k. \<not> paramFields k) tkeys
                in launchLoop NewToolshed y quiet silent threads (length clearKeys) clearKeys 0
                     (readerChan s) outChan (s\<lparr> chans := cs \<rparr>)))))))"




section \<open>The words of the specification\<close>

subsection \<open>Accuracy statistics\<close>

text \<open>
  The words of the specification, to compare with what the functions above compute:
  the total length of the CIGAR operations of given types; the aligned length
  \<open>L = M + I + D\<close>; the decoded edit distance \<open>E\<close>; \<open>Accuracy = (1 - E / L) * 100\<close>
  and the weighted contribution \<open>Accuracy * L\<close> in \<^verbatim>\<open>float64\<close> arithmetic; a sum of
  \<^verbatim>\<open>float64\<close> values taken from \<open>0.0\<close> in arrival order.
\<close>

definition opsLen :: "CigarOpType list \<Rightarrow> CigarOp list \<Rightarrow> int" where
  "opsLen ts cig = sum_list (map opLen (filter (\<lambda>co. opType co \<in> set ts) cig))"

definition cigarFits :: "CigarOp list \<Rightarrow> bool" where
  "cigarFits cig = (sum_list (map opLen cig) < 2 ^ 63)"

definition alignedLen :: "sam_Record \<Rightarrow> int" where
  "alignedLen r =
     opsLen [CigarMatch, CigarEqual, CigarMismatch] (Cigar r)
       + opsLen [CigarInsertion] (Cigar r) + opsLen [CigarDeletion] (Cigar r)"

text \<open>
  \<open>NMtag r\<close> is what the type switch of the source makes of the record's NM tag; it is
  \<open>None\<close> exactly when \<^verbatim>\<open>GetSamAlnDetails\<close> panics.
\<close>

definition NMtag :: "sam_Record \<Rightarrow> int option" where
  "NMtag r =
     (case Tag r ''NM'' of
        None \<Rightarrow> None
      | Some aux \<Rightarrow> (case decodeNM aux of Inl e \<Rightarrow> None | Inr n \<Rightarrow> Some n))"

text \<open>
  The edit distance \<open>E\<close> of the specification is the integer the tag stores, read in
  the tag's own width and signedness: the signed value of a signed type, the unsigned
  value of an unsigned one. It does not refer to the type switch of the source.
  \<open>hasIntNM r\<close> says that the record has an NM tag that stores an integer, and that this
  integer is a value of Go's \<^verbatim>\<open>int\<close>. (The BAM decoder returns integers of at most 32
  bits; an unsigned 64-bit value from \<open>2 ^ 63\<close> on does not fit, and the source's
  \<^verbatim>\<open>int(v)\<close> wraps it.)
\<close>

fun storedInteger :: "AuxValue \<Rightarrow> int option" where
  "storedInteger (AuxInt w) = Some (sint w)"
| "storedInteger (AuxInt8 w) = Some (sint w)"
| "storedInteger (AuxInt16 w) = Some (sint w)"
| "storedInteger (AuxInt32 w) = Some (sint w)"
| "storedInteger (AuxInt64 w) = Some (sint w)"
| "storedInteger (AuxUint w) = Some (uint w)"
| "storedInteger (AuxUint8 w) = Some (uint w)"
| "storedInteger (AuxUint16 w) = Some (uint w)"
| "storedInteger (AuxUint32 w) = Some (uint w)"
| "storedInteger (AuxUint64 w) = Some (uint w)"
| "storedInteger (AuxOther s) = None"

definition NMvalue :: "sam_Record \<Rightarrow> int option" where
  "NMvalue r = (case Tag r ''NM'' of None \<Rightarrow> None | Some aux \<Rightarrow> storedInteger aux)"

definition hasIntNM :: "sam_Record \<Rightarrow> bool" where
  "hasIntNM r = (case NMvalue r of None \<Rightarrow> False | Some e \<Rightarrow> int64 e)"

definition editDist :: "sam_Record \<Rightarrow> int" where
  "editDist r = (case NMvalue r of None \<Rightarrow> 0 | Some n \<Rightarrow> n)"

definition Accuracy :: "rounding \<Rightarrow> int \<Rightarrow> int \<Rightarrow> float64" where
  "Accuracy rnd e l =
     fmul rnd (fsub rnd (Finite 1) (fdiv rnd (f64_of_int rnd e) (f64_of_int rnd l))) (Finite 100)"

definition recAccuracy :: "rounding \<Rightarrow> sam_Record \<Rightarrow> float64" where
  "recAccuracy rnd r = Accuracy rnd (editDist r) (alignedLen r)"

definition recWeighted :: "rounding \<Rightarrow> sam_Record \<Rightarrow> float64" where
  "recWeighted rnd r = fmul rnd (recAccuracy rnd r) (f64_of_int rnd (alignedLen r))"

definition fsum :: "rounding \<Rightarrow> float64 list \<Rightarrow> float64" where
  "fsum rnd xs = foldl (fadd rnd) (Finite 0) xs"

definition fincr :: "rounding \<Rightarrow> float64 \<Rightarrow> float64" where
  "fincr rnd x = fadd rnd x (Finite 1)"

definition mapped :: "sam_Record list \<Rightarrow> sam_Record list" where
  "mapped rs = filter GetSamMapped rs"

definition totals :: "AccState \<Rightarrow> int \<times> float64 \<times> float64 \<times> float64" where
  "totals s = (totalLen s, accSum s, wAccSum s, nr s)"

text \<open>
  The line of the summary, and the state of the files after the header and the line
  have been written to the destination \<open>tsv\<close>: the standard error stream for \<^verbatim>\<open>-\<close>,
  the created file otherwise.
\<close>

definition tsvLine :: "rounding \<Rightarrow> (float64 \<Rightarrow> float64 \<Rightarrow> string) \<Rightarrow> AccState \<Rightarrow> string" where
  "tsvLine rnd Sprintf s = Sprintf (MeanAcc rnd s) (WeightedAcc rnd s)"

definition reported :: "OS \<Rightarrow> string \<Rightarrow> string \<Rightarrow> OS" where
  "reported w tsv line =
     (if tsv = ''-'' then w\<lparr>stderr := stderr w @ tsvHeader @ line\<rparr>
      else w\<lparr>files := (files w)(tsv \<mapsto> tsvHeader @ line)\<rparr>)"

text \<open>
  The outcome the specification asks for on a record of aligned length 0: the record is
  rejected with a diagnostic, or the accuracy and its weighted contribution are numbers.
\<close>

fun definedOutcome :: "error + AlnDetails \<Rightarrow> bool" where
  "definedOutcome (Inl (Fatal msg)) = True"
| "definedOutcome (Inl (Panic msg)) = False"
| "definedOutcome (Inr d) = (isFinite (Acc d) \<and> isFinite (WAcc d))"

subsection \<open>The context filter\<close>

text \<open>
  What the loop computes, in terms of the index as the stage calls it: a side matches
  when its pattern is configured and matches the sequence the index returns for the pair
  of coordinates; \<open>fetchable\<close> says that the fetch a configured side needs succeeds.
\<close>

definition windowMatches ::
  "('rx, 'idx, 'faidx) Ext \<Rightarrow> ('idx, 'faidx) RefWithFaidx \<Rightarrow> 'rx option \<Rightarrow> string \<Rightarrow> int \<Rightarrow> int
     \<Rightarrow> bool" where
  "windowMatches ext i reg chrom a b =
     (case reg of
        None \<Rightarrow> False
      | Some rx \<Rightarrow> (case IdxSubSeq ext i chrom a b of Inl err \<Rightarrow> False | Inr s \<Rightarrow> MatchString ext rx s))"

definition fetchable ::
  "('rx, 'idx, 'faidx) Ext \<Rightarrow> ('idx, 'faidx) RefWithFaidx \<Rightarrow> 'rx option \<Rightarrow> string \<Rightarrow> int \<Rightarrow> int
     \<Rightarrow> bool" where
  "fetchable ext i reg chrom a b =
     (case reg of
        None \<Rightarrow> True
      | Some rx \<Rightarrow> (case IdxSubSeq ext i chrom a b of Inl err \<Rightarrow> False | Inr s \<Rightarrow> True))"

definition startMatches ::
  "('rx, 'idx, 'faidx) Ext \<Rightarrow> ('idx, 'faidx) RefWithFaidx \<Rightarrow> 'rx option \<Rightarrow> int \<Rightarrow> int
     \<Rightarrow> sam_Record \<Rightarrow> bool" where
  "startMatches ext i reg leftShift rightShift r =
     windowMatches ext i reg (RefName r) (Pos r + leftShift) (Pos r + rightShift)"

definition endMatches ::
  "('rx, 'idx, 'faidx) Ext \<Rightarrow> ('idx, 'faidx) RefWithFaidx \<Rightarrow> 'rx option \<Rightarrow> int \<Rightarrow> int
     \<Rightarrow> sam_Record \<Rightarrow> bool" where
  "endMatches ext i reg leftShift rightShift r =
     windowMatches ext i reg (RefName r) (Record_End ext r + leftShift)
       (Record_End ext r + rightShift)"

definition windowsOk ::
  "('rx, 'idx, 'faidx) Ext \<Rightarrow> ('idx, 'faidx) RefWithFaidx \<Rightarrow> 'rx option \<Rightarrow> 'rx option \<Rightarrow> int \<Rightarrow> int
     \<Rightarrow> sam_Record \<Rightarrow> bool" where
  "windowsOk ext i regStart regEnd leftShift rightShift r =
     (int64 (Pos r + leftShift) \<and> int64 (Pos r + rightShift)
      \<and> int64 (Record_End ext r + leftShift) \<and> int64 (Record_End ext r + rightShift)
      \<and> fetchable ext i regStart (RefName r) (Pos r + leftShift) (Pos r + rightShift)
      \<and> (startMatches ext i regStart leftShift rightShift r
          \<or> fetchable ext i regEnd (RefName r) (Record_End ext r + leftShift)
               (Record_End ext r + rightShift)))"

text \<open>
  Modelled from the spec: the Reference Index, whose package is not among the sources.
  The specification gives it a sub-sequence retrieval by contig name and half-open
  coordinate range, with an out-of-bounds window an error and no clamping. Over a
  reference \<open>genome\<close> (the sequence of each contig), the window \<open>[a, b)\<close> of a contig is
  its bases at the zero-based positions \<open>a, ..., b - 1\<close>, and there is none when the
  contig is unknown or the window leaves the sequence.
\<close>

definition halfOpen :: "(string \<rightharpoonup> string) \<Rightarrow> string \<Rightarrow> int \<Rightarrow> int \<Rightarrow> string option" where
  "halfOpen genome chrom a b =
     (case genome chrom of
        None \<Rightarrow> None
      | Some s \<Rightarrow>
          (if 0 \<le> a \<and> a \<le> b \<and> b \<le> int (length s)
           then Some (take (nat (b - a)) (drop (nat a) s))
           else None))"

text \<open>
  The words of the specification for the filter, over the reference: a side hits when
  its pattern is configured and matches the half-open window; the start window is
  \<open>[start + LeftShift, start + RightShift)\<close>, the end window
  \<open>[end + LeftShift, end + RightShift)\<close>. \<open>windowsIn\<close> says that the coordinates of a
  record's windows fit Go's \<^verbatim>\<open>int\<close> and that the windows the stage fetches for it exist:
  the start window when the start pattern is configured, the end window when the end
  pattern is configured and the start side did not hit.
\<close>

definition hits ::
  "('rx, 'idx, 'faidx) Ext \<Rightarrow> (string \<rightharpoonup> string) \<Rightarrow> 'rx option \<Rightarrow> string \<Rightarrow> int \<Rightarrow> int \<Rightarrow> bool" where
  "hits ext genome reg chrom a b =
     (case reg of
        None \<Rightarrow> False
      | Some rx \<Rightarrow>
          (case halfOpen genome chrom a b of None \<Rightarrow> False | Some s \<Rightarrow> MatchString ext rx s))"

definition startHit ::
  "('rx, 'idx, 'faidx) Ext \<Rightarrow> (string \<rightharpoonup> string) \<Rightarrow> 'rx option \<Rightarrow> int \<Rightarrow> int \<Rightarrow> sam_Record
     \<Rightarrow> bool" where
  "startHit ext genome reg leftShift rightShift r =
     hits ext genome reg (RefName r) (Pos r + leftShift) (Pos r + rightShift)"

definition endHit ::
  "('rx, 'idx, 'faidx) Ext \<Rightarrow> (string \<rightharpoonup> string) \<Rightarrow> 'rx option \<Rightarrow> int \<Rightarrow> int \<Rightarrow> sam_Record
     \<Rightarrow> bool" where
  "endHit ext genome reg leftShift rightShift r =
     hits ext genome reg (RefName r) (Record_End ext r + leftShift)
       (Record_End ext r + rightShift)"

definition windowsIn ::
  "('rx, 'idx, 'faidx) Ext \<Rightarrow> (string \<rightharpoonup> string) \<Rightarrow> 'rx option \<Rightarrow> 'rx option \<Rightarrow> int \<Rightarrow> int
     \<Rightarrow> sam_Record \<Rightarrow> bool" where
  "windowsIn ext genome regStart regEnd leftShift rightShift r =
     (int64 (Pos r + leftShift) \<and> int64 (Pos r + rightShift)
      \<and> int64 (Record_End ext r + leftShift) \<and> int64 (Record_End ext r + rightShift)
      \<and> (regStart = None
          \<or> halfOpen genome (RefName r) (Pos r + leftShift) (Pos r + rightShift) \<noteq> None)
      \<and> (startHit ext genome regStart leftShift rightShift r \<or> regEnd = None
          \<or> halfOpen genome (RefName r) (Record_End ext r + leftShift)
               (Record_End ext r + rightShift) \<noteq> None))"

subsection \<open>The chain\<close>

text \<open>
  The channels of the chain of \<open>n\<close> stages whose first stage channel is \<open>c\<close>: stage
  \<open>j\<close> sends to the terminal consumer's channel when it is the last one and to
  channel \<open>c + j\<close> otherwise, and receives from the reader's channel when it is the
  first one and from the channel stage \<open>j - 1\<close> sends to otherwise.
\<close>

definition outOf :: "chan \<Rightarrow> nat \<Rightarrow> nat \<Rightarrow> nat \<Rightarrow> chan" where
  "outOf lastCh c n j = (if j + 1 = n then lastCh else Some (c + j))"

definition inOf :: "chan \<Rightarrow> chan \<Rightarrow> nat \<Rightarrow> nat \<Rightarrow> nat \<Rightarrow> chan" where
  "inOf reader lastCh c n j = (if j = 0 then reader else outOf lastCh c n (j - 1))"

text \<open>
  The files the adapters open, and the condition under which the reader and the terminal
  consumer are built without a fatal error: the input opens; and either the key
  \<^verbatim>\<open>Sink\<close> is true, or the decoder has a header and the output opens. \<open>clearKeys\<close> is
  the list of the source: the keys without the reserved one.
\<close>

definition inputFile :: "string \<Rightarrow> os_File" where
  "inputFile inFile = (if inFile = ''-'' then Stdin else OpenFile inFile False)"

definition outputFile :: "string \<Rightarrow> os_File" where
  "outputFile outFile = (if outFile = ''-'' then Stdout else OpenFile outFile False)"

definition sinkMode :: "Yaml \<Rightarrow> bool" where
  "sinkMode y = (Yaml_Bool (Yaml_Get y ''Sink'') = Inr True)"

definition startsUp :: "(OS \<Rightarrow> os_File \<Rightarrow> 'h option) \<Rightarrow> OS \<Rightarrow> Yaml \<Rightarrow> string \<Rightarrow> string \<Rightarrow> bool" where
  "startsUp bam_NewReader w y inFile outFile =
     ((inFile = ''-'' \<or> files w inFile \<noteq> None)
      \<and> (sinkMode y
          \<or> (bam_NewReader w (inputFile inFile) \<noteq> None
              \<and> (outFile = ''-'' \<or> files w outFile \<noteq> None))))"

definition clearKeys :: "string list \<Rightarrow> string list" where
  "clearKeys tkeys = filter (\<lambda>k. \<not> paramFields k) tkeys"

definition setupState :: "Yaml \<Rightarrow> string \<Rightarrow> Orch" where
  "setupState y outFile =
     \<lparr> chans = [chanCap, if sinkMode y then chanCap else ioBuff, chanCap],
       readerChan = Some 0,
       terminal = Some (if sinkMode y then SinkTask else WriterTask (outputFile outFile)),
       lastOut = Some 1, launched = [] \<rparr>"

text \<open>
  Modelled from the spec: the configuration document and its reader, whose package is
  not among the sources. The specification makes the document an ordered mapping whose
  key order defines the chain order, and gives the reader a key enumeration. A document
  is written as YAML text in flow style, \<open>render\<close>, its keys in document order; the
  contract of the reader is that it returns the document of such a text, so that
  \<^verbatim>\<open>GetMapKeys\<close> lists the keys in the order in which the text lists them.
\<close>

fun digits :: "nat \<Rightarrow> string" where
  "digits n = (if n < 10 then [char_of (48 + n)] else digits (n div 10) @ [char_of (48 + n mod 10)])"

fun joinWith :: "string \<Rightarrow> string list \<Rightarrow> string" where
  "joinWith sep [] = []"
| "joinWith sep [x] = x"
| "joinWith sep (x # y # ys) = x @ sep @ joinWith sep (y # ys)"

fun render :: "Yaml \<Rightarrow> string" where
  "render YNull = ''null''"
| "render (YBool b) = (if b then ''true'' else ''false'')"
| "render (YInt i) = (if i < 0 then ''-'' @ digits (nat (- i)) else digits (nat i))"
| "render (YString s) = s"
| "render (YMap kvs) =
     ''{'' @ joinWith '', '' (map (\<lambda>kv. fst kv @ '': '' @ render (snd kv)) kvs) @ ''}''"

text \<open>
  The text of the configuration the orchestrator runs: its argument or, when the first
  key of the argument is \<^verbatim>\<open>Yaml\<close>, the content of the file that key names (lines 145 to
  159).
\<close>

definition configText :: "(string \<Rightarrow> string + Yaml) \<Rightarrow> OS \<Rightarrow> string \<Rightarrow> string option" where
  "configText NewYaml w toolYaml =
     (let t = (if toolYaml = ''help'' then ''help: true'' else toolYaml) in
      case NewYaml t of
        Inl err \<Rightarrow> None
      | Inr y \<Rightarrow>
     (case Yaml_GetMapKeys y of
        Inl err \<Rightarrow> None
      | Inr ty \<Rightarrow>
     (case ty of
        [] \<Rightarrow> None
      | k # ks \<Rightarrow>
          (if k = ''Yaml''
           then (case Yaml_String (Yaml_Get y ''Yaml'') of
                   Inl err \<Rightarrow> None
                 | Inr conf \<Rightarrow>
                     (case ioutil_ReadFile w conf of Inl err \<Rightarrow> None | Inr cb \<Rightarrow> Some cb))
           else Some t))))"

section \<open>Concrete inputs\<close>

text \<open>
  The records of the specification's example: a mapped record with CIGAR \<^verbatim>\<open>10=\<close> and
  edit distance 1, and an unmapped record without tags; a mapped record with CIGAR
  \<^verbatim>\<open>20M\<close> and edit distance 2 in a signed 16-bit tag; a mapped record with no aligned
  base (a soft clip only, edit distance 1); a mapped record at position 1.
  \<open>exact\<close> is the rounding that rounds nothing; \<open>showMeans\<close> stands for \<^verbatim>\<open>Sprintf\<close> at
  the values the examples print; \<open>exEncode\<close> stands for the BAM encoder.
\<close>

definition rec10 :: sam_Record where
  "rec10 = \<lparr> RefName = ''chr1'', Pos = 0, Flags = 0, Cigar = [CigarOp CigarEqual 10],
             AuxFields = [(''NM'', AuxUint8 1)] \<rparr>"

definition recUnmapped :: sam_Record where
  "recUnmapped = \<lparr> RefName = ''*'', Pos = - 1, Flags = 4, Cigar = [], AuxFields = [] \<rparr>"

definition rec20 :: sam_Record where
  "rec20 = \<lparr> RefName = ''chr1'', Pos = 2, Flags = 16, Cigar = [CigarOp CigarMatch 20],
             AuxFields = [(''NM'', AuxInt16 2)] \<rparr>"

definition recZero :: sam_Record where
  "recZero = \<lparr> RefName = ''chr1'', Pos = 0, Flags = 0, Cigar = [CigarOp CigarSoftClipped 5],
               AuxFields = [(''NM'', AuxUint8 1)] \<rparr>"

definition recAt1 :: sam_Record where
  "recAt1 = \<lparr> RefName = ''chr1'', Pos = 1, Flags = 0, Cigar = [CigarOp CigarEqual 4],
              AuxFields = [(''NM'', AuxUint8 0)] \<rparr>"

definition exact :: rounding where
  "exact x = Finite x"

definition showMeans :: "float64 \<Rightarrow> float64 \<Rightarrow> string" where
  "showMeans a b =
     (if a = Finite 90 \<and> b = Finite 90
      then ''90.000'' @ [CHR 0x09] @ ''90.000'' @ [CHR 0x0A]
      else ''other'')"

definition exEncode :: "unit \<Rightarrow> sam_Record list \<Rightarrow> string" where
  "exEncode head recs = ''BAM'' @ concat (map RefName recs)"

definition emptyOS :: OS where
  "emptyOS = \<lparr> files = Map.empty, creatable = (\<lambda>path. False), stdout = [], stderr = [] \<rparr>"

definition osWithOut :: OS where
  "osWithOut = \<lparr> files = [''out.bam'' \<mapsto> ''old''], creatable = (\<lambda>path. True), stdout = [],
                 stderr = [] \<rparr>"

definition accParams :: "string \<Rightarrow> BamToolParams" where
  "accParams tsv = \<lparr> Yaml = YMap [(''Tsv'', YString tsv)], InChan = Some 0, OutChan = Some 1,
                     Quiet = False, Silent = False, Threads = 1, Rank = 0, Shed = NewToolshed \<rparr>"

text \<open>
  An environment for the examples: a pattern is a text and matches where it occurs; the
  reference has one sequence, \<^verbatim>\<open>chr1\<close>, and a window is the half-open range of
  zero-based positions; a record ends where the operations that consume the reference
  end.
\<close>

fun occursIn :: "string \<Rightarrow> string \<Rightarrow> bool" where
  "occursIn pat [] = (pat = [])"
| "occursIn pat (c # s) = (take (length pat) (c # s) = pat \<or> occursIn pat s)"

definition exSubSeq :: "(string \<times> string) list \<Rightarrow> string \<Rightarrow> int \<Rightarrow> int \<Rightarrow> string + string" where
  "exSubSeq fx chrom a b =
     (case map_of fx chrom of
        None \<Rightarrow> Inl ''sequence not found''
      | Some s \<Rightarrow>
          (if 0 \<le> a \<and> a \<le> b \<and> b \<le> int (length s)
           then Inr (take (nat (b - a)) (drop (nat a) s))
           else Inl ''window out of range''))"

definition exExt :: "(string, unit, (string \<times> string) list) Ext" where
  "exExt = \<lparr> regexp_Compile = (\<lambda>pat. Inr pat),
             MatchString = occursIn,
             Record_End = (\<lambda>r. Pos r + opsLen [CigarMatch, CigarDeletion, CigarSkipped,
                                               CigarEqual, CigarMismatch] (Cigar r)),
             fileNotExists = (\<lambda>path. False),
             fai_CreateWithIDRegexp = (\<lambda>file fileFai. Inr ()),
             fai_Read = (\<lambda>fileFai. Inr ()),
             fai_NewWithIndex = (\<lambda>file ix. Inr [(''chr1'', ''ACGTACGTAC'')]),
             Faidx_SubSeq = exSubSeq \<rparr>"

definition exGenome :: "string \<rightharpoonup> string" where
  "exGenome = [''chr1'' \<mapsto> ''ACGTACGTAC'']"

definition exIndex :: "(unit, (string \<times> string) list) RefWithFaidx" where
  "exIndex = \<lparr> Fasta = ''ref.fa'', IdxFile = ''ref.fa.seqkit.fai'', idx = (),
               faidx = [(''chr1'', ''ACGTACGTAC'')], Cache = False \<rparr>"

definition ctxParams :: BamToolParams where
  "ctxParams = \<lparr> Yaml = YMap [(''Ref'', YString ''ref.fa''), (''LeftShift'', YInt 0),
                               (''RightShift'', YInt 5), (''RegexStart'', YString ''ACGTA'')],
                 InChan = Some 0, OutChan = Some 1, Quiet = False, Silent = False, Threads = 1,
                 Rank = 0, Shed = NewToolshed \<rparr>"

text \<open>
  Four configurations and what the YAML reader makes of them, and a decoder that always
  has a header.
\<close>

definition ctxFirst :: Yaml where
  "ctxFirst = YMap [(''AlnContext'', YMap [(''Ref'', YString ''ref.fa'')]),
                    (''AccStats'', YMap [(''Tsv'', YString ''-'')]),
                    (''Sink'', YBool True)]"


definition twoStages :: string where
  "twoStages = ''{AccStats: {Tsv: -}, AlnContext: {Ref: ref.fa}, Sink: true}''"


definition exNewYaml :: "string \<Rightarrow> string + Yaml" where
  "exNewYaml text =
     (if text = ''AccStats: {Tsv: -}''
      then Inr (YMap [(''AccStats'', YMap [(''Tsv'', YString ''-'')])])
      else if text = ''{AccStats: {Tsv: -}, Bogus: {}, Sink: true}''
      then Inr (YMap [(''AccStats'', YMap [(''Tsv'', YString ''-'')]), (''Bogus'', YMap []),
                      (''Sink'', YBool True)])
      else if text = ''{AccStats: {Tsv: -}, AlnContext: {Ref: ref.fa}, Sink: true}''
      then Inr (YMap [(''AccStats'', YMap [(''Tsv'', YString ''-'')]),
                      (''AlnContext'', YMap [(''Ref'', YString ''ref.fa'')]),
                      (''Sink'', YBool True)])
      else if text = ''{AlnContext: {Ref: ref.fa}, AccStats: {Tsv: -}, Sink: true}''
      then Inr (YMap [(''AlnContext'', YMap [(''Ref'', YString ''ref.fa'')]),
                      (''AccStats'', YMap [(''Tsv'', YString ''-'')]),
                      (''Sink'', YBool True)])
      else Inl ''yaml: cannot parse'')"

definition exNewReader :: "OS \<Rightarrow> os_File \<Rightarrow> unit option" where
  "exNewReader w fh = Some ()"

section \<open>Theorems\<close>

subsection \<open>The CIGAR loop\<close>

lemma wrap64_id: "- (2 ^ 63) \<le> x \<Longrightarrow> x < 2 ^ 63 \<Longrightarrow> wrap64 x = x"
  by (simp add: wrap64_def)

lemma opLen_nonneg: "0 \<le> opLen co"
  by (cases co) simp

lemma opsLen_nonneg: "0 \<le> opsLen ts cig"
  unfolding opsLen_def by (induction cig) (simp_all add: opLen_nonneg)

lemma opsLen_Cons:
  "opsLen ts (co # cig) = (if opType co \<in> set ts then opLen co else 0) + opsLen ts cig"
  by (simp add: opsLen_def)

lemma fold_cigarStep:
  "0 \<le> a \<Longrightarrow> 0 \<le> b \<Longrightarrow> 0 \<le> c \<Longrightarrow> 0 \<le> d \<Longrightarrow>
   a + opsLen [CigarMatch, CigarEqual, CigarMismatch] cig < 2 ^ 63 \<Longrightarrow>
   b + opsLen [CigarInsertion] cig < 2 ^ 63 \<Longrightarrow>
   c + opsLen [CigarDeletion] cig < 2 ^ 63 \<Longrightarrow>
   d + opsLen [CigarSkipped] cig < 2 ^ 63 \<Longrightarrow>
   fold cigarStep cig (a, b, c, d) =
     (a + opsLen [CigarMatch, CigarEqual, CigarMismatch] cig, b + opsLen [CigarInsertion] cig,
      c + opsLen [CigarDeletion] cig, d + opsLen [CigarSkipped] cig)"
proof (induction cig arbitrary: a b c d)
  case Nil
  then show ?case by (simp add: opsLen_def)
next
  case (Cons co cig)
  have n: "0 \<le> opLen co" by (rule opLen_nonneg)
  note nn = opsLen_nonneg[of "[CigarMatch, CigarEqual, CigarMismatch]" cig]
    opsLen_nonneg[of "[CigarInsertion]" cig] opsLen_nonneg[of "[CigarDeletion]" cig]
    opsLen_nonneg[of "[CigarSkipped]" cig]
  show ?case
  proof (cases "opType co")
    case CigarMatch
    with Cons.prems n nn have w: "wrap64 (a + opLen co) = a + opLen co"
      by (intro wrap64_id) (simp_all add: opsLen_Cons)
    from Cons.prems n CigarMatch show ?thesis
      by (simp add: w opsLen_Cons Cons.IH)
  next
    case CigarEqual
    with Cons.prems n nn have w: "wrap64 (a + opLen co) = a + opLen co"
      by (intro wrap64_id) (simp_all add: opsLen_Cons)
    from Cons.prems n CigarEqual show ?thesis
      by (simp add: w opsLen_Cons Cons.IH)
  next
    case CigarMismatch
    with Cons.prems n nn have w: "wrap64 (a + opLen co) = a + opLen co"
      by (intro wrap64_id) (simp_all add: opsLen_Cons)
    from Cons.prems n CigarMismatch show ?thesis
      by (simp add: w opsLen_Cons Cons.IH)
  next
    case CigarInsertion
    with Cons.prems n nn have w: "wrap64 (b + opLen co) = b + opLen co"
      by (intro wrap64_id) (simp_all add: opsLen_Cons)
    from Cons.prems n CigarInsertion show ?thesis
      by (simp add: w opsLen_Cons Cons.IH)
  next
    case CigarDeletion
    with Cons.prems n nn have w: "wrap64 (c + opLen co) = c + opLen co"
      by (intro wrap64_id) (simp_all add: opsLen_Cons)
    from Cons.prems n CigarDeletion show ?thesis
      by (simp add: w opsLen_Cons Cons.IH)
  next
    case CigarSkipped
    with Cons.prems n nn have w: "wrap64 (d + opLen co) = d + opLen co"
      by (intro wrap64_id) (simp_all add: opsLen_Cons)
    from Cons.prems n CigarSkipped show ?thesis
      by (simp add: w opsLen_Cons Cons.IH)
  next
    case CigarSoftClipped
    with Cons.prems show ?thesis by (simp add: opsLen_Cons Cons.IH)
  next
    case CigarHardClipped
    with Cons.prems show ?thesis by (simp add: opsLen_Cons Cons.IH)
  next
    case CigarPadded
    with Cons.prems show ?thesis by (simp add: opsLen_Cons Cons.IH)
  next
    case CigarBack
    with Cons.prems show ?thesis by (simp add: opsLen_Cons Cons.IH)
  qed
qed

lemma opsLen_le_total: "opsLen ts cig \<le> sum_list (map opLen cig)"
  unfolding opsLen_def by (induction cig) (simp_all add: opLen_nonneg add_increasing)

lemma opsLen_disjoint_le:
  "opsLen [CigarMatch, CigarEqual, CigarMismatch] cig + opsLen [CigarInsertion] cig
     + opsLen [CigarDeletion] cig \<le> sum_list (map opLen cig)"
  unfolding opsLen_def by (induction cig) (auto simp: opLen_nonneg add_increasing)

lemma cigarCounts_eq:
  assumes "cigarFits cig"
  shows "cigarCounts cig =
     (opsLen [CigarMatch, CigarEqual, CigarMismatch] cig, opsLen [CigarInsertion] cig,
      opsLen [CigarDeletion] cig, opsLen [CigarSkipped] cig)"
proof -
  have b: "opsLen ts cig < 2 ^ 63" for ts
    using assms opsLen_le_total[of ts cig] by (simp add: cigarFits_def)
  show ?thesis
    unfolding cigarCounts_def
    using fold_cigarStep[of 0 0 0 0 cig] b by simp
qed

lemma alignedLen_bounds:
  assumes "cigarFits (Cigar r)"
  shows "0 \<le> alignedLen r" and "alignedLen r < 2 ^ 63"
proof -
  show "0 \<le> alignedLen r"
    unfolding alignedLen_def
    by (intro add_nonneg_nonneg opsLen_nonneg)
  show "alignedLen r < 2 ^ 63"
    using assms opsLen_disjoint_le[of "Cigar r"] by (simp add: alignedLen_def cigarFits_def)
qed

lemma GetSamAlnDetails_eq:
  assumes nm: "NMtag r = Some e" and fits: "cigarFits (Cigar r)"
  shows "GetSamAlnDetails rnd r =
     Inr \<lparr> Mismatch = e,
           MatchMismatch = opsLen [CigarMatch, CigarEqual, CigarMismatch] (Cigar r),
           Insertion = opsLen [CigarInsertion] (Cigar r),
           Deletion = opsLen [CigarDeletion] (Cigar r),
           Skip = opsLen [CigarSkipped] (Cigar r),
           Len = alignedLen r,
           Acc = Accuracy rnd e (alignedLen r),
           WAcc = fmul rnd (Accuracy rnd e (alignedLen r)) (f64_of_int rnd (alignedLen r)) \<rparr>"
proof -
  let ?M = "opsLen [CigarMatch, CigarEqual, CigarMismatch] (Cigar r)"
  let ?I = "opsLen [CigarInsertion] (Cigar r)"
  let ?D = "opsLen [CigarDeletion] (Cigar r)"
  from nm obtain aux where t: "Tag r ''NM'' = Some aux" and d: "decodeNM aux = Inr e"
    by (auto simp: NMtag_def split: option.splits sum.splits)
  have nnM: "0 \<le> ?M" and nnI: "0 \<le> ?I" and nnD: "0 \<le> ?D" by (rule opsLen_nonneg)+
  have tot: "?M + ?I + ?D < 2 ^ 63"
    using alignedLen_bounds(2)[OF fits] by (simp add: alignedLen_def)
  have w1: "wrap64 (?M + ?I) = ?M + ?I"
    using nnM nnI nnD tot by (intro wrap64_id) simp_all
  have w2: "wrap64 (?M + ?I + ?D) = ?M + ?I + ?D"
    using nnM nnI nnD tot by (intro wrap64_id) simp_all
  show ?thesis
    by (simp add: GetSamAlnDetails_def t d cigarCounts_eq[OF fits] w1 w2 Let_def
        Accuracy_def alignedLen_def)
qed

lemma sint_uint_small: "uint (w :: 64 word) < 2 ^ 63 \<Longrightarrow> sint w = uint w"
proof -
  assume a: "uint w < 2 ^ 63"
  have "(0::int) \<le> uint w" by simp
  moreover have "- (2 ^ 63) \<le> (0::int)" by simp
  ultimately have lo: "- (2 ^ 63) \<le> uint w" by (rule order_trans[rotated])
  have "sint w = signed_take_bit (LENGTH(64) - Suc 0) (uint w)" by (rule sint_uint)
  also have "\<dots> = uint w"
    using a lo by (intro signed_take_bit_int_eq_self) simp_all
  finally show ?thesis .
qed

lemma decodeNM_stored:
  "storedInteger aux = Some e \<Longrightarrow> int64 e \<Longrightarrow> decodeNM aux = Inr e"
proof (cases aux)
  case (AuxUint w)
  assume "storedInteger aux = Some e" and "int64 e"
  with AuxUint have "uint w = e" and "uint w < 2 ^ 63" by (simp_all add: int64_def)
  then have "sint w = e" by (simp add: sint_uint_small)
  with AuxUint show ?thesis by simp
next
  case (AuxUint64 w)
  assume "storedInteger aux = Some e" and "int64 e"
  with AuxUint64 have "uint w = e" and "uint w < 2 ^ 63" by (simp_all add: int64_def)
  then have "sint w = e" by (simp add: sint_uint_small)
  with AuxUint64 show ?thesis by simp
qed auto

lemma hasIntNM_NMtag:
  assumes "hasIntNM r"
  shows "NMvalue r = Some (editDist r)" and "NMtag r = Some (editDist r)"
proof -
  from assms obtain e where v: "NMvalue r = Some e" and i: "int64 e"
    by (auto simp: hasIntNM_def split: option.splits)
  then show "NMvalue r = Some (editDist r)" by (simp add: editDist_def)
  from v obtain aux where t: "Tag r ''NM'' = Some aux" and st: "storedInteger aux = Some e"
    by (auto simp: NMvalue_def split: option.splits)
  from decodeNM_stored[OF st i] t v show "NMtag r = Some (editDist r)"
    by (simp add: NMtag_def editDist_def)
qed

lemma GetSamAlnDetails_ok_iff:
  "(\<exists>d. GetSamAlnDetails rnd r = Inr d) \<longleftrightarrow> NMtag r \<noteq> None"
  by (auto simp: GetSamAlnDetails_def NMtag_def Let_def split: option.splits sum.splits prod.splits)

subsection \<open>The accumulation loop\<close>

lemma AccLoop_sent:
  "AccLoop rnd inp s = Inr s' \<Longrightarrow> sent s' = sent s @ inp"
  by (induction inp arbitrary: s) (auto split: if_splits sum.splits)

lemma AccLoop_ok:
  "\<forall>r\<in>set inp. GetSamMapped r \<longrightarrow> NMtag r \<noteq> None \<Longrightarrow> \<exists>s'. AccLoop rnd inp s = Inr s'"
proof (induction inp arbitrary: s)
  case Nil
  then show ?case by simp
next
  case (Cons r inp)
  show ?case
  proof (cases "GetSamMapped r")
    case True
    with Cons.prems have "NMtag r \<noteq> None" by simp
    then obtain d where "GetSamAlnDetails rnd r = Inr d"
      using GetSamAlnDetails_ok_iff by blast
    with True Cons show ?thesis by simp
  next
    case False
    with Cons show ?thesis by simp
  qed
qed

lemma AccLoop_totals_cong:
  "totals s = totals t \<Longrightarrow>
   map_sum id totals (AccLoop rnd inp s) = map_sum id totals (AccLoop rnd inp t)"
proof (induction inp arbitrary: s t)
  case Nil
  then show ?case by simp
next
  case (Cons r inp)
  show ?case
  proof (cases "GetSamMapped r")
    case True
    show ?thesis
    proof (cases "GetSamAlnDetails rnd r")
      case (Inl e)
      with True show ?thesis by simp
    next
      case (Inr info)
      have "totals (s\<lparr> totalLen := wrap64 (totalLen s + Len info),
                      wAccSum := fadd rnd (wAccSum s) (WAcc info),
                      accSum := fadd rnd (accSum s) (Acc info),
                      nr := fadd rnd (nr s) (Finite 1),
                      sent := sent s @ [r] \<rparr>)
          = totals (t\<lparr> totalLen := wrap64 (totalLen t + Len info),
                      wAccSum := fadd rnd (wAccSum t) (WAcc info),
                      accSum := fadd rnd (accSum t) (Acc info),
                      nr := fadd rnd (nr t) (Finite 1),
                      sent := sent t @ [r] \<rparr>)"
        using Cons.prems by (simp add: totals_def)
      from Cons.IH[OF this] True Inr show ?thesis by simp
    qed
  next
    case False
    have "totals (s\<lparr>sent := sent s @ [r]\<rparr>) = totals (t\<lparr>sent := sent t @ [r]\<rparr>)"
      using Cons.prems by (simp add: totals_def)
    from Cons.IH[OF this] False show ?thesis by simp
  qed
qed

lemma AccLoop_mapped_only:
  "map_sum id totals (AccLoop rnd inp s) = map_sum id totals (AccLoop rnd (mapped inp) s)"
proof (induction inp arbitrary: s)
  case Nil
  then show ?case by (simp add: mapped_def)
next
  case (Cons r inp)
  show ?case
  proof (cases "GetSamMapped r")
    case True
    then show ?thesis
      using Cons.IH by (simp add: mapped_def split: sum.splits)
  next
    case False
    have "map_sum id totals (AccLoop rnd (r # inp) s)
        = map_sum id totals (AccLoop rnd inp (s\<lparr>sent := sent s @ [r]\<rparr>))"
      using False by simp
    also have "\<dots> = map_sum id totals (AccLoop rnd inp s)"
      by (rule AccLoop_totals_cong) (simp add: totals_def)
    also have "\<dots> = map_sum id totals (AccLoop rnd (mapped inp) s)"
      by (rule Cons.IH)
    also have "mapped inp = mapped (r # inp)"
      using False by (simp add: mapped_def)
    finally show ?thesis .
  qed
qed

lemma AccLoop_closed:
  assumes "\<forall>r\<in>set inp. GetSamMapped r \<longrightarrow> hasIntNM r"
    and "\<forall>r\<in>set inp. GetSamMapped r \<longrightarrow> cigarFits (Cigar r)"
    and "0 \<le> totalLen s"
    and "totalLen s + sum_list (map alignedLen (mapped inp)) < 2 ^ 63"
  shows "AccLoop rnd inp s =
     Inr \<lparr> totalLen = totalLen s + sum_list (map alignedLen (mapped inp)),
           accSum = foldl (fadd rnd) (accSum s) (map (recAccuracy rnd) (mapped inp)),
           wAccSum = foldl (fadd rnd) (wAccSum s) (map (recWeighted rnd) (mapped inp)),
           nr = (fincr rnd ^^ length (mapped inp)) (nr s),
           sent = sent s @ inp \<rparr>"
  using assms
proof (induction inp arbitrary: s)
  case Nil
  then show ?case by (simp add: mapped_def)
next
  case (Cons r inp)
  show ?case
  proof (cases "GetSamMapped r")
    case True
    with Cons.prems have "hasIntNM r" and fits: "cigarFits (Cigar r)"
      by auto
    from hasIntNM_NMtag(2)[OF this(1)] have nm: "NMtag r = Some (editDist r)" .
    have d: "GetSamAlnDetails rnd r =
       Inr \<lparr> Mismatch = editDist r,
             MatchMismatch = opsLen [CigarMatch, CigarEqual, CigarMismatch] (Cigar r),
             Insertion = opsLen [CigarInsertion] (Cigar r),
             Deletion = opsLen [CigarDeletion] (Cigar r),
             Skip = opsLen [CigarSkipped] (Cigar r),
             Len = alignedLen r,
             Acc = recAccuracy rnd r,
             WAcc = recWeighted rnd r \<rparr>"
      using GetSamAlnDetails_eq[OF nm fits, of rnd] by (simp add: recAccuracy_def recWeighted_def)
    have m: "mapped (r # inp) = r # mapped inp" using True by (simp add: mapped_def)
    have l0: "0 \<le> alignedLen r" by (rule alignedLen_bounds(1)[OF fits])
    have rest: "0 \<le> sum_list (map alignedLen (mapped inp))"
      using Cons.prems(2) by (intro sum_list_nonneg) (auto simp: mapped_def alignedLen_bounds(1))
    have w: "wrap64 (totalLen s + alignedLen r) = totalLen s + alignedLen r"
      using Cons.prems(3,4) l0 rest by (intro wrap64_id) (simp_all add: m)
    let ?s = "s\<lparr> totalLen := wrap64 (totalLen s + alignedLen r),
                  wAccSum := fadd rnd (wAccSum s) (recWeighted rnd r),
                  accSum := fadd rnd (accSum s) (recAccuracy rnd r),
                  nr := fadd rnd (nr s) (Finite 1),
                  sent := sent s @ [r] \<rparr>"
    have step: "AccLoop rnd (r # inp) s = AccLoop rnd inp ?s"
      using True by (simp add: d)
    have ih: "AccLoop rnd inp ?s =
       Inr \<lparr> totalLen = totalLen ?s + sum_list (map alignedLen (mapped inp)),
             accSum = foldl (fadd rnd) (accSum ?s) (map (recAccuracy rnd) (mapped inp)),
             wAccSum = foldl (fadd rnd) (wAccSum ?s) (map (recWeighted rnd) (mapped inp)),
             nr = (fincr rnd ^^ length (mapped inp)) (nr ?s),
             sent = sent ?s @ inp \<rparr>"
      using Cons.prems l0 by (intro Cons.IH) (simp_all add: w m)
    show ?thesis
      unfolding step ih
      by (simp add: w m funpow_swap1 add.assoc) (simp add: fincr_def)
  next
    case False
    have m: "mapped (r # inp) = mapped inp" using False by (simp add: mapped_def)
    have step: "AccLoop rnd (r # inp) s = AccLoop rnd inp (s\<lparr>sent := sent s @ [r]\<rparr>)"
      using False by simp
    have ih: "AccLoop rnd inp (s\<lparr>sent := sent s @ [r]\<rparr>) =
       Inr \<lparr> totalLen = totalLen s + sum_list (map alignedLen (mapped inp)),
             accSum = foldl (fadd rnd) (accSum s) (map (recAccuracy rnd) (mapped inp)),
             wAccSum = foldl (fadd rnd) (wAccSum s) (map (recWeighted rnd) (mapped inp)),
             nr = (fincr rnd ^^ length (mapped inp)) (nr s),
             sent = (sent s @ [r]) @ inp \<rparr>"
      using Cons.IH[of "s\<lparr>sent := sent s @ [r]\<rparr>"] Cons.prems by (simp add: m)
    show ?thesis
      unfolding step ih by (simp add: m)
  qed
qed

lemma count_exact:
  assumes "\<forall>k\<le>n. rnd (real k) = Finite (real k)"
  shows "(fincr rnd ^^ n) (Finite 0) = Finite (real n)"
  using assms
proof (induction n)
  case 0
  then show ?case by simp
next
  case (Suc n)
  then have ih: "(fincr rnd ^^ n) (Finite 0) = Finite (real n)" by simp
  have ex: "rnd (real (Suc n)) = Finite (real (Suc n))" using Suc.prems by blast
  have "(fincr rnd ^^ Suc n) (Finite 0) = fincr rnd (Finite (real n))"
    by (simp add: ih)
  also have "\<dots> = rnd (real (Suc n))"
    by (simp add: fincr_def fadd_def add.commute)
  finally show ?case by (simp only: ex)
qed

subsection \<open>Running the stage\<close>

lemma GetSamMapped_bit: "GetSamMapped r \<longleftrightarrow> \<not> bit (Flags r) 2"
proof -
  have "Flags r AND 2 ^ 2 = 0 \<longleftrightarrow> \<not> bit (Flags r) 2"
    by (rule and_exp_eq_0_iff_not_bit)
  then show ?thesis by (simp add: GetSamMapped_def Unmapped_def)
qed

lemma BamToolAccStats_run:
  assumes "Yaml_String (Yaml_Get (Yaml p) ''Tsv'') = Inr tsv"
    and "AccLoop rnd inp AccInit = Inr s"
  shows "BamToolAccStats rnd Sprintf p inp w =
     Inr (sent s,
          if tsv = ''-'' then w\<lparr>stderr := stderr w @ tsvHeader @ tsvLine rnd Sprintf s\<rparr>
          else if creatable w tsv
               then w\<lparr>files := (files w)(tsv \<mapsto> tsvHeader @ tsvLine rnd Sprintf s)\<rparr>
               else w)"
  using assms
  by (simp add: BamToolAccStats_def os_Create_def tsvLine_def Let_def)

lemma BamToolAccStats_fails:
  "AccLoop rnd inp AccInit = Inl e \<Longrightarrow> Yaml_String (Yaml_Get (Yaml p) ''Tsv'') = Inr tsv \<Longrightarrow>
   BamToolAccStats rnd Sprintf p inp w = Inl e"
  by (simp add: BamToolAccStats_def split: prod.splits)

subsection \<open>The example records\<close>

lemma rec10_mapped: "GetSamMapped rec10" by (simp add: GetSamMapped_def rec10_def Unmapped_def)

lemma recUnmapped_unmapped: "\<not> GetSamMapped recUnmapped"
  by (simp add: GetSamMapped_def recUnmapped_def Unmapped_def)

lemma rec10_NM: "NMtag rec10 = Some 1" by (simp add: NMtag_def Tag_def rec10_def)

lemma rec10_fits: "cigarFits (Cigar rec10)" by (simp add: cigarFits_def rec10_def)

lemma rec10_alignedLen: "alignedLen rec10 = 10" by (simp add: alignedLen_def opsLen_def rec10_def)

lemma rec10_hasIntNM: "hasIntNM rec10"
  by (simp add: hasIntNM_def NMvalue_def Tag_def rec10_def int64_def)

lemma rec10_editDist: "editDist rec10 = 1"
  by (simp add: editDist_def NMvalue_def Tag_def rec10_def)

lemma rec10_Accuracy: "recAccuracy exact rec10 = Finite 90"
  by (simp add: recAccuracy_def rec10_alignedLen rec10_editDist Accuracy_def
      f64_of_int_def exact_def fdiv_def fsub_def fmul_def)

lemma rec10_Weighted: "recWeighted exact rec10 = Finite 900"
  by (simp add: recWeighted_def rec10_Accuracy rec10_alignedLen f64_of_int_def exact_def fmul_def)

lemma mapped_example: "mapped [rec10, recUnmapped, rec10] = [rec10, rec10]"
  by (simp add: mapped_def rec10_mapped recUnmapped_unmapped)

subsection \<open>The accuracy statistics\<close>

text \<open>
  C1. Let the stage run on a stream whose mapped records all carry an NM tag that stores
  an integer (a value of Go's \<^verbatim>\<open>int\<close>, whatever its width and signedness), with a
  summary destination that can be written and lengths that fit Go's \<^verbatim>\<open>int\<close>.
  For each mapped record \<^verbatim>\<open>GetSamAlnDetails\<close> returns \<open>M\<close>, \<open>I\<close>, \<open>D\<close> and the skipped
  length as the total lengths of the CIGAR operations of the respective types,
  \<open>L = M + I + D\<close> without the skipped length, \<open>E\<close> as the integer the tag stores,
  \<open>Accuracy = (1 - E / L) * 100\<close> and the weighted contribution \<open>Accuracy * L\<close>, both in
  \<^verbatim>\<open>float64\<close> arithmetic. At the end of the stream the stage has forwarded its input and
  written the header and one line to the destination: the line shows the sum of the
  accuracies divided by the number of mapped records, and the sum of the weighted
  contributions divided by the sum of the aligned lengths, the sums running over the
  mapped records in arrival order. The counter of mapped records is a \<^verbatim>\<open>float64\<close>; it is
  the number of mapped records as long as the rounding is exact on the natural numbers
  up to that number, as it is for doubles up to \<open>2 ^ 53\<close>.
\<close>

theorem AccStats_means:
  assumes tsv: "Yaml_String (Yaml_Get (Yaml p) ''Tsv'') = Inr tsv"
    and dest: "tsv = ''-'' \<or> creatable w tsv"
    and nm: "\<forall>r\<in>set inp. GetSamMapped r \<longrightarrow> hasIntNM r"
    and fits: "\<forall>r\<in>set inp. GetSamMapped r \<longrightarrow> cigarFits (Cigar r)"
    and tot: "sum_list (map alignedLen (mapped inp)) < 2 ^ 63"
    and cnt: "\<forall>k\<le>length (mapped inp). rnd (real k) = Finite (real k)"
  shows "(\<forall>r\<in>set inp. GetSamMapped r \<longrightarrow>
            (\<exists>d. GetSamAlnDetails rnd r = Inr d
               \<and> MatchMismatch d = opsLen [CigarMatch, CigarEqual, CigarMismatch] (Cigar r)
               \<and> Insertion d = opsLen [CigarInsertion] (Cigar r)
               \<and> Deletion d = opsLen [CigarDeletion] (Cigar r)
               \<and> Skip d = opsLen [CigarSkipped] (Cigar r)
               \<and> Len d = MatchMismatch d + Insertion d + Deletion d
               \<and> NMvalue r = Some (Mismatch d)
               \<and> Acc d = Accuracy rnd (Mismatch d) (Len d)
               \<and> WAcc d = fmul rnd (Acc d) (f64_of_int rnd (Len d))))
       \<and> BamToolAccStats rnd Sprintf p inp w =
           Inr (inp,
                reported w tsv
                  (Sprintf
                     (fdiv rnd (fsum rnd (map (recAccuracy rnd) (mapped inp)))
                        (Finite (real (length (mapped inp)))))
                     (fdiv rnd (fsum rnd (map (recWeighted rnd) (mapped inp)))
                        (f64_of_int rnd (sum_list (map alignedLen (mapped inp)))))))"
proof (intro conjI ballI impI)
  fix r assume r: "r \<in> set inp" and m: "GetSamMapped r"
  from nm r m have h: "hasIntNM r" by simp
  note v = hasIntNM_NMtag(1)[OF h] and e = hasIntNM_NMtag(2)[OF h]
  from fits r m have f: "cigarFits (Cigar r)" by simp
  show "\<exists>d. GetSamAlnDetails rnd r = Inr d
               \<and> MatchMismatch d = opsLen [CigarMatch, CigarEqual, CigarMismatch] (Cigar r)
               \<and> Insertion d = opsLen [CigarInsertion] (Cigar r)
               \<and> Deletion d = opsLen [CigarDeletion] (Cigar r)
               \<and> Skip d = opsLen [CigarSkipped] (Cigar r)
               \<and> Len d = MatchMismatch d + Insertion d + Deletion d
               \<and> NMvalue r = Some (Mismatch d)
               \<and> Acc d = Accuracy rnd (Mismatch d) (Len d)
               \<and> WAcc d = fmul rnd (Acc d) (f64_of_int rnd (Len d))"
    by (simp add: GetSamAlnDetails_eq[OF e f] v alignedLen_def)
next
  let ?n = "length (mapped inp)"
  let ?s = "\<lparr> totalLen = sum_list (map alignedLen (mapped inp)),
              accSum = fsum rnd (map (recAccuracy rnd) (mapped inp)),
              wAccSum = fsum rnd (map (recWeighted rnd) (mapped inp)),
              nr = Finite (real ?n),
              sent = inp \<rparr>"
  have "AccLoop rnd inp AccInit = Inr ?s"
    using AccLoop_closed[OF nm fits, of AccInit rnd] tot count_exact[OF cnt]
    by (simp add: AccInit_def fsum_def)
  from BamToolAccStats_run[OF tsv this, of Sprintf w] dest
  show "BamToolAccStats rnd Sprintf p inp w =
           Inr (inp,
                reported w tsv
                  (Sprintf
                     (fdiv rnd (fsum rnd (map (recAccuracy rnd) (mapped inp)))
                        (Finite (real (length (mapped inp)))))
                     (fdiv rnd (fsum rnd (map (recWeighted rnd) (mapped inp)))
                        (f64_of_int rnd (sum_list (map alignedLen (mapped inp)))))))"
    by (auto simp: reported_def tsvLine_def MeanAcc_def WeightedAcc_def)
qed

lemma rec20_facts:
  "GetSamMapped rec20" "hasIntNM rec20" "cigarFits (Cigar rec20)" "alignedLen rec20 = 20"
  "recAccuracy exact rec20 = Finite 90" "recWeighted exact rec20 = Finite 1800"
proof -
  show m: "GetSamMapped rec20" by (simp add: GetSamMapped_def rec20_def Unmapped_def)
  show "hasIntNM rec20" by (simp add: hasIntNM_def NMvalue_def Tag_def rec20_def int64_def)
  show "cigarFits (Cigar rec20)" by (simp add: cigarFits_def rec20_def)
  show l: "alignedLen rec20 = 20" by (simp add: alignedLen_def opsLen_def rec20_def)
  have e: "editDist rec20 = 2" by (simp add: editDist_def NMvalue_def Tag_def rec20_def)
  show a: "recAccuracy exact rec20 = Finite 90"
    by (simp add: recAccuracy_def l e Accuracy_def f64_of_int_def exact_def fdiv_def fsub_def
        fmul_def)
  show "recWeighted exact rec20 = Finite 1800"
    by (simp add: recWeighted_def a l f64_of_int_def exact_def fmul_def)
qed

theorem AccStats_means_witness:
  "BamToolAccStats exact showMeans (accParams ''-'') [rec10, recUnmapped, rec20] emptyOS
     = Inr ([rec10, recUnmapped, rec20],
            emptyOS\<lparr>stderr := tsvHeader @ ''90.000'' @ [CHR 0x09] @ ''90.000'' @ [CHR 0x0A]\<rparr>)"
proof -
  let ?inp = "[rec10, recUnmapped, rec20]"
  have tsv: "Yaml_String (Yaml_Get (Yaml (accParams ''-'')) ''Tsv'') = Inr ''-''"
    by (simp add: accParams_def)
  have dest: "''-'' = ''-'' \<or> creatable emptyOS ''-''" by simp
  have mp: "mapped ?inp = [rec10, rec20]"
    by (simp add: mapped_def rec10_mapped recUnmapped_unmapped rec20_facts)
  have nm: "\<forall>r\<in>set ?inp. GetSamMapped r \<longrightarrow> hasIntNM r"
    by (simp add: rec10_hasIntNM recUnmapped_unmapped rec20_facts)
  have fits: "\<forall>r\<in>set ?inp. GetSamMapped r \<longrightarrow> cigarFits (Cigar r)"
    by (simp add: rec10_fits recUnmapped_unmapped rec20_facts)
  have tot: "sum_list (map alignedLen (mapped ?inp)) < 2 ^ 63"
    by (simp add: mp rec10_alignedLen rec20_facts)
  have cnt: "\<forall>k\<le>length (mapped ?inp). exact (real k) = Finite (real k)"
    by (simp add: exact_def)
  have sums: "fsum exact (map (recAccuracy exact) (mapped ?inp)) = Finite 180"
    "fsum exact (map (recWeighted exact) (mapped ?inp)) = Finite 2700"
    by (simp_all add: mp rec10_Accuracy rec10_Weighted rec20_facts fsum_def fadd_def exact_def)
  from AccStats_means[OF tsv dest nm fits tot cnt, of showMeans]
  have "BamToolAccStats exact showMeans (accParams ''-'') ?inp emptyOS =
     Inr (?inp, reported emptyOS ''-''
        (showMeans (fdiv exact (Finite 180) (Finite (real (length (mapped ?inp)))))
           (fdiv exact (Finite 2700) (f64_of_int exact (sum_list (map alignedLen (mapped ?inp)))))))"
    by (simp only: sums)
  then show ?thesis
    by (simp add: mp rec10_alignedLen rec20_facts fdiv_def exact_def f64_of_int_def showMeans_def
        reported_def emptyOS_def)
qed

subsection \<open>AccStats forwards every record\<close>

text \<open>
  C8. When the stage runs to its end (the key \<^verbatim>\<open>Tsv\<close> is a string and every mapped record
  has an integer NM tag), what it sends is exactly what it received: every record, mapped
  or not, unchanged, once, in arrival order. A record is mapped iff bit 2 of its flags,
  the unmapped flag, is clear. The four totals after the whole stream are the totals
  after its mapped records alone, so only mapped records contribute.
\<close>

theorem AccStats_forwards_all:
  assumes tsv: "Yaml_String (Yaml_Get (Yaml p) ''Tsv'') = Inr tsv"
    and nm: "\<forall>r\<in>set inp. GetSamMapped r \<longrightarrow> NMtag r \<noteq> None"
  shows "(\<exists>w'. BamToolAccStats rnd Sprintf p inp w = Inr (inp, w'))
       \<and> (\<forall>r. GetSamMapped r \<longleftrightarrow> \<not> bit (Flags r) 2)
       \<and> map_sum id totals (AccLoop rnd inp AccInit)
           = map_sum id totals (AccLoop rnd (mapped inp) AccInit)"
proof -
  from AccLoop_ok[OF nm] obtain s where s: "AccLoop rnd inp AccInit = Inr s" by blast
  have "sent s = inp" using AccLoop_sent[OF s] by (simp add: AccInit_def)
  with BamToolAccStats_run[OF tsv s, of Sprintf w]
  have "\<exists>w'. BamToolAccStats rnd Sprintf p inp w = Inr (inp, w')" by simp
  then show ?thesis
    using GetSamMapped_bit AccLoop_mapped_only by blast
qed

theorem AccStats_forwards_all_witness:
  "map_sum id fst
     (BamToolAccStats exact showMeans (accParams ''-'') [rec10, recUnmapped, rec10] emptyOS)
   = Inr [rec10, recUnmapped, rec10]"
proof -
  have tsv: "Yaml_String (Yaml_Get (Yaml (accParams ''-'')) ''Tsv'') = Inr ''-''"
    by (simp add: accParams_def)
  have nm: "\<forall>r\<in>set [rec10, recUnmapped, rec10]. GetSamMapped r \<longrightarrow> NMtag r \<noteq> None"
    by (simp add: rec10_NM recUnmapped_unmapped)
  from AccStats_forwards_all[OF tsv nm, of exact showMeans emptyOS]
  show ?thesis by auto
qed

subsection \<open>A record with aligned length zero\<close>

text \<open>
  C9, as stated, fails: on the mapped record \<open>recZero\<close>, whose aligned length is 0,
  \<^verbatim>\<open>GetSamAlnDetails\<close> neither rejects the record nor returns a number: the division is
  carried out with the divisor zero and the accuracy is minus infinity, its weighted
  contribution NaN.
\<close>

theorem zero_length_counterexample:
  "GetSamMapped recZero \<and> alignedLen recZero = 0
   \<and> GetSamAlnDetails exact recZero =
       Inr \<lparr> Mismatch = 1, MatchMismatch = 0, Insertion = 0, Deletion = 0, Skip = 0, Len = 0,
             Acc = NegInf, WAcc = NaN \<rparr>
   \<and> \<not> definedOutcome (GetSamAlnDetails exact recZero)"
  by (simp add: GetSamMapped_def Unmapped_def recZero_def alignedLen_def opsLen_def
      GetSamAlnDetails_def Tag_def cigarCounts_def wrap64_def f64_of_int_def exact_def
      fdiv_def fsub_def fmul_def signedInf_def)

text \<open>
  C9, amended. For a record with an integer NM tag \<open>E\<close> and aligned length 0 the accuracy
  computation is not guarded and does not fail: \<^verbatim>\<open>GetSamAlnDetails\<close> returns, with
  \<open>Len = 0\<close>, the accuracy NaN when \<open>E = 0\<close>, minus infinity when \<open>E > 0\<close>, plus infinity
  when \<open>E < 0\<close>, and the weighted contribution NaN. (The conversions of 0 and of \<open>E\<close>
  to \<^verbatim>\<open>float64\<close> are exact.)
\<close>

theorem zero_length_unguarded:
  assumes nm: "NMtag r = Some e" and fits: "cigarFits (Cigar r)" and zero: "alignedLen r = 0"
    and r0: "rnd 0 = Finite 0" and re: "rnd (real_of_int e) = Finite (real_of_int e)"
  shows "\<exists>d. GetSamAlnDetails rnd r = Inr d \<and> Len d = 0
            \<and> Acc d = (if e = 0 then NaN else if 0 < e then NegInf else PosInf)
            \<and> WAcc d = NaN"
proof -
  have acc: "Accuracy rnd e 0 = (if e = 0 then NaN else if 0 < e then NegInf else PosInf)"
    by (simp add: Accuracy_def f64_of_int_def r0 re fdiv_def fsub_def fmul_def signedInf_def)
  have z: "f64_of_int rnd 0 = Finite 0" by (simp add: f64_of_int_def r0)
  show ?thesis
    by (simp add: GetSamAlnDetails_eq[OF nm fits] zero acc z fmul_def)
qed

theorem zero_length_unguarded_witness:
  "\<exists>d. GetSamAlnDetails exact recZero = Inr d \<and> Len d = 0 \<and> Acc d = NegInf \<and> WAcc d = NaN"
proof -
  have nm: "NMtag recZero = Some 1" by (simp add: NMtag_def Tag_def recZero_def)
  have fits: "cigarFits (Cigar recZero)" by (simp add: cigarFits_def recZero_def)
  have zero: "alignedLen recZero = 0" by (simp add: alignedLen_def opsLen_def recZero_def)
  have r0: "exact 0 = Finite 0" by (simp add: exact_def)
  have re: "exact (real_of_int 1) = Finite (real_of_int 1)" by (simp add: exact_def)
  from zero_length_unguarded[OF nm fits zero r0 re] show ?thesis by simp
qed

subsection \<open>An unwritable summary destination\<close>

text \<open>
  C7. The destination \<^verbatim>\<open>/nonexistent/acc.tsv\<close> cannot be created. The stage does not
  abort: the error of \<^verbatim>\<open>os.Create\<close> is assigned and never read, the records are
  forwarded, the two writes to the nil file fail unnoticed, and nothing is written
  anywhere.
\<close>

theorem AccStats_unwritable_destination:
  "\<not> creatable emptyOS ''/nonexistent/acc.tsv''
   \<and> BamToolAccStats exact showMeans (accParams ''/nonexistent/acc.tsv'')
         [rec10, recUnmapped, rec10] emptyOS
       = Inr ([rec10, recUnmapped, rec10], emptyOS)"
proof -
  have tsv: "Yaml_String (Yaml_Get (Yaml (accParams ''/nonexistent/acc.tsv'')) ''Tsv'')
      = Inr ''/nonexistent/acc.tsv''"
    by (simp add: accParams_def)
  have nm: "\<forall>r\<in>set [rec10, recUnmapped, rec10]. GetSamMapped r \<longrightarrow> NMtag r \<noteq> None"
    by (simp add: rec10_NM recUnmapped_unmapped)
  from AccLoop_ok[OF nm] obtain s where s: "AccLoop exact [rec10, recUnmapped, rec10] AccInit = Inr s"
    by blast
  have "sent s = [rec10, recUnmapped, rec10]" using AccLoop_sent[OF s] by (simp add: AccInit_def)
  with BamToolAccStats_run[OF tsv s, of showMeans emptyOS] show ?thesis
    by (simp add: emptyOS_def)
qed

subsection \<open>The two accuracy functions agree\<close>

text \<open>
  C10. \<^verbatim>\<open>GetSamAcc\<close> returns what \<^verbatim>\<open>GetSamAlnDetails\<close> stores in the field \<^verbatim>\<open>Acc\<close>, for
  every record: with an integer NM tag both return the same \<^verbatim>\<open>float64\<close>, and where one
  panics (no NM tag, or a tag that is not an integer) the other panics with the same
  message.
\<close>

theorem GetSamAcc_eq_Acc:
  "GetSamAcc rnd r = map_sum id Acc (GetSamAlnDetails rnd r)"
  by (simp add: GetSamAcc_def GetSamAlnDetails_def Let_def
      split: option.split sum.split prod.split)

subsection \<open>The context filter drops what matches\<close>

lemma sideTest_eq:
  "fetchable ext i reg chrom a b \<Longrightarrow> sideTest ext i reg chrom a b = Inr (windowMatches ext i reg chrom a b)"
  by (simp add: fetchable_def sideTest_def windowMatches_def split: option.splits sum.splits)

lemma int64_wrap: "int64 x \<Longrightarrow> wrap64 x = x"
  by (simp add: int64_def wrap64_id)

lemma AlnContextLoop_filter:
  assumes "\<forall>r\<in>set inp. windowsOk ext i regStart regEnd leftShift rightShift r"
  shows "AlnContextLoop ext i regStart regEnd leftShift rightShift inp out =
     Inr (out @ filter (\<lambda>r. \<not> (startMatches ext i regStart leftShift rightShift r
                               \<or> endMatches ext i regEnd leftShift rightShift r)) inp)"
  using assms
proof (induction inp arbitrary: out)
  case Nil
  then show ?case by simp
next
  case (Cons r inp)
  from Cons.prems have ok: "windowsOk ext i regStart regEnd leftShift rightShift r"
    and rest: "\<forall>r\<in>set inp. windowsOk ext i regStart regEnd leftShift rightShift r"
    by simp_all
  note ih = Cons.IH[OF rest]
  from ok have w: "wrap64 (Pos r + leftShift) = Pos r + leftShift"
    "wrap64 (Pos r + rightShift) = Pos r + rightShift"
    "wrap64 (Record_End ext r + leftShift) = Record_End ext r + leftShift"
    "wrap64 (Record_End ext r + rightShift) = Record_End ext r + rightShift"
    by (simp_all add: windowsOk_def int64_wrap)
  from ok have s: "sideTest ext i regStart (RefName r) (Pos r + leftShift) (Pos r + rightShift)
      = Inr (startMatches ext i regStart leftShift rightShift r)"
    by (simp add: windowsOk_def startMatches_def sideTest_eq)
  show ?case
  proof (cases "startMatches ext i regStart leftShift rightShift r")
    case True
    then show ?thesis by (simp add: w s ih)
  next
    case False
    with ok have "fetchable ext i regEnd (RefName r) (Record_End ext r + leftShift)
               (Record_End ext r + rightShift)"
      by (simp add: windowsOk_def)
    then have e: "sideTest ext i regEnd (RefName r) (Record_End ext r + leftShift)
        (Record_End ext r + rightShift) = Inr (endMatches ext i regEnd leftShift rightShift r)"
      by (simp add: endMatches_def sideTest_eq)
    show ?thesis
      using False by (cases "endMatches ext i regEnd leftShift rightShift r") (simp_all add: w s e ih)
  qed
qed

lemma halfOpen_index:
  assumes "\<forall>chrom a b. (case IdxSubSeq ext i chrom a b of Inl err \<Rightarrow> None | Inr s \<Rightarrow> Some s)
                          = halfOpen genome chrom a b"
  shows "windowMatches ext i reg chrom a b = hits ext genome reg chrom a b"
    and "fetchable ext i reg chrom a b = (reg = None \<or> halfOpen genome chrom a b \<noteq> None)"
proof -
  from assms have h: "halfOpen genome chrom a b
      = (case IdxSubSeq ext i chrom a b of Inl err \<Rightarrow> None | Inr s \<Rightarrow> Some s)" by simp
  show "windowMatches ext i reg chrom a b = hits ext genome reg chrom a b"
    by (cases "IdxSubSeq ext i chrom a b")
      (auto simp: windowMatches_def hits_def h split: option.splits)
  show "fetchable ext i reg chrom a b = (reg = None \<or> halfOpen genome chrom a b \<noteq> None)"
    by (cases "IdxSubSeq ext i chrom a b")
      (auto simp: fetchable_def h split: option.splits)
qed

text \<open>
  C2. Let the stage be configured (\<^verbatim>\<open>Ref\<close>, \<^verbatim>\<open>LeftShift\<close>, \<^verbatim>\<open>RightShift\<close> present, the
  configured patterns compile, the index opens), let the index retrieve half-open
  windows of the reference as the specification says, and let every window the stage
  fetches exist, with coordinates that fit Go's \<^verbatim>\<open>int\<close>. Then the stage sends exactly the
  records it received that are not dropped, unchanged and in order, where a record is
  dropped iff the start pattern is configured and matches the reference in the
  half-open window \<open>[start + LeftShift, start + RightShift)\<close>, or the end pattern is
  configured and matches it in \<open>[end + LeftShift, end + RightShift)\<close>. A pattern whose
  key is absent (or no string) is nil, and a nil pattern never hits: that side is not
  tested.
\<close>

theorem AlnContext_filters:
  assumes ref: "Yaml_String (Yaml_Get (Yaml p) ''Ref'') = Inr ref"
    and ls: "Yaml_Int (Yaml_Get (Yaml p) ''LeftShift'') = Inr leftShift"
    and rs: "Yaml_Int (Yaml_Get (Yaml p) ''RightShift'') = Inr rightShift"
    and rxs: "optRegexp ext (Yaml_Get (Yaml p) ''RegexStart'') = Inr regStart"
    and rxe: "optRegexp ext (Yaml_Get (Yaml p) ''RegexEnd'') = Inr regEnd"
    and ix: "NewRefWitdFaidx ext ref False (Silent p) = Inr i"
    and index: "\<forall>chrom a b. (case IdxSubSeq ext i chrom a b of Inl err \<Rightarrow> None | Inr s \<Rightarrow> Some s)
                              = halfOpen genome chrom a b"
    and ok: "\<forall>r\<in>set inp. windowsIn ext genome regStart regEnd leftShift rightShift r"
  shows "BamToolAlnContext ext p inp =
           Inr (filter (\<lambda>r. \<not> (startHit ext genome regStart leftShift rightShift r
                               \<or> endHit ext genome regEnd leftShift rightShift r)) inp)
       \<and> (isl (Yaml_String (Yaml_Get (Yaml p) ''RegexStart'')) \<longrightarrow> regStart = None)
       \<and> (isl (Yaml_String (Yaml_Get (Yaml p) ''RegexEnd'')) \<longrightarrow> regEnd = None)
       \<and> (\<forall>r. regStart = None \<longrightarrow> \<not> startHit ext genome regStart leftShift rightShift r)
       \<and> (\<forall>r. regEnd = None \<longrightarrow> \<not> endHit ext genome regEnd leftShift rightShift r)"
proof (intro conjI)
  note hi = halfOpen_index[OF index]
  have sm: "startMatches ext i regStart leftShift rightShift r
              = startHit ext genome regStart leftShift rightShift r" for r
    by (simp add: startMatches_def startHit_def hi(1))
  have em: "endMatches ext i regEnd leftShift rightShift r
              = endHit ext genome regEnd leftShift rightShift r" for r
    by (simp add: endMatches_def endHit_def hi(1))
  have wok: "\<forall>r\<in>set inp. windowsOk ext i regStart regEnd leftShift rightShift r"
  proof
    fix r assume "r \<in> set inp"
    with ok have "windowsIn ext genome regStart regEnd leftShift rightShift r" by simp
    then show "windowsOk ext i regStart regEnd leftShift rightShift r"
      by (auto simp: windowsIn_def windowsOk_def hi(2) sm)
  qed
  show "BamToolAlnContext ext p inp =
           Inr (filter (\<lambda>r. \<not> (startHit ext genome regStart leftShift rightShift r
                               \<or> endHit ext genome regEnd leftShift rightShift r)) inp)"
    using AlnContextLoop_filter[OF wok, of "[]"]
    by (simp add: BamToolAlnContext_def ref ls rs rxs rxe ix sm em)
  show "isl (Yaml_String (Yaml_Get (Yaml p) ''RegexStart'')) \<longrightarrow> regStart = None"
    using rxs by (auto simp: optRegexp_def isl_def split: sum.splits)
  show "isl (Yaml_String (Yaml_Get (Yaml p) ''RegexEnd'')) \<longrightarrow> regEnd = None"
    using rxe by (auto simp: optRegexp_def isl_def split: sum.splits)
  show "\<forall>r. regStart = None \<longrightarrow> \<not> startHit ext genome regStart leftShift rightShift r"
    by (simp add: startHit_def hits_def)
  show "\<forall>r. regEnd = None \<longrightarrow> \<not> endHit ext genome regEnd leftShift rightShift r"
    by (simp add: endHit_def hits_def)
qed

theorem AlnContext_filters_witness:
  "BamToolAlnContext exExt ctxParams [rec10, recAt1] = Inr [recAt1]
   \<and> halfOpen exGenome ''chr1'' 0 5 = Some ''ACGTA''
   \<and> halfOpen exGenome ''chr1'' 1 6 = Some ''CGTAC''"
proof -
  have ref: "Yaml_String (Yaml_Get (Yaml ctxParams) ''Ref'') = Inr ''ref.fa''"
    and ls: "Yaml_Int (Yaml_Get (Yaml ctxParams) ''LeftShift'') = Inr 0"
    and rs: "Yaml_Int (Yaml_Get (Yaml ctxParams) ''RightShift'') = Inr 5"
    and rxs: "optRegexp exExt (Yaml_Get (Yaml ctxParams) ''RegexStart'') = Inr (Some ''ACGTA'')"
    and rxe: "optRegexp exExt (Yaml_Get (Yaml ctxParams) ''RegexEnd'') = Inr None"
    by (simp_all add: ctxParams_def optRegexp_def exExt_def)
  have ix: "NewRefWitdFaidx exExt ''ref.fa'' False (Silent ctxParams) = Inr exIndex"
    by (simp add: NewRefWitdFaidx_def exExt_def exIndex_def)
  have index: "\<forall>chrom a b. (case IdxSubSeq exExt exIndex chrom a b of Inl err \<Rightarrow> None | Inr s \<Rightarrow> Some s)
                              = halfOpen exGenome chrom a b"
    by (simp add: IdxSubSeq_def exExt_def exIndex_def exSubSeq_def halfOpen_def exGenome_def)
  have w0: "halfOpen exGenome ''chr1'' 0 5 = Some ''ACGTA''"
    and w1: "halfOpen exGenome ''chr1'' 1 6 = Some ''CGTAC''"
    by (simp_all add: halfOpen_def exGenome_def)
  have m0: "startHit exExt exGenome (Some ''ACGTA'') 0 5 rec10"
    by (simp add: startHit_def hits_def rec10_def w0) (simp add: exExt_def)
  have m1: "\<not> startHit exExt exGenome (Some ''ACGTA'') 0 5 recAt1"
    by (simp add: startHit_def hits_def recAt1_def w1) (simp add: exExt_def)
  have e: "\<not> endHit exExt exGenome None 0 5 r" for r
    by (simp add: endHit_def hits_def)
  have end10: "Record_End exExt rec10 = 10" and end1: "Record_End exExt recAt1 = 5"
    by (simp_all add: exExt_def rec10_def recAt1_def opsLen_def)
  have ok: "\<forall>r\<in>set [rec10, recAt1]. windowsIn exExt exGenome (Some ''ACGTA'') None 0 5 r"
    by (simp add: windowsIn_def int64_def end10 end1 m0)
       (simp add: rec10_def recAt1_def w0 w1)
  from AlnContext_filters[OF ref ls rs rxs rxe ix index ok]
  have "BamToolAlnContext exExt ctxParams [rec10, recAt1] = Inr [recAt1]"
    by (simp add: m0 m1 e)
  with w0 w1 show ?thesis by simp
qed

subsection \<open>The launch loop\<close>

lemma NewToolshed_Name: "NewToolshed k = Some wt \<Longrightarrow> Name wt = k"
  by (auto simp: NewToolshed_def split: if_splits)

lemma launchLoop_ok:
  assumes "\<forall>k\<in>set ks. shed k \<noteq> None"
    and "n = rank + length ks"
    and "nextOut = Some (c + rank)"
    and "length (chans s) = c + rank + 1"
    and "nextIn = inOf reader (lastOut s) c n rank"
  shows "\<exists>ls. launchLoop shed y quiet silent threads n ks rank nextIn nextOut s
            = (None, s\<lparr> chans := chans s @ replicate (length ks) chanCap,
                         launched := launched s @ ls \<rparr>)
          \<and> length ls = length ks
          \<and> (\<forall>j<length ks. shed (ks ! j) = Some (fst (ls ! j))
                \<and> snd (ls ! j) = \<lparr> Yaml = Yaml_Get y (ks ! j),
                                    InChan = inOf reader (lastOut s) c n (rank + j),
                                    OutChan = outOf (lastOut s) c n (rank + j),
                                    Quiet = quiet, Silent = silent, Threads = threads,
                                    Rank = rank + j, Shed = shed \<rparr>)"
  using assms
proof (induction ks arbitrary: rank nextIn nextOut s)
  case Nil
  then show ?case by simp
next
  case (Cons tool rest)
  from Cons.prems(1) obtain wt where wt: "shed tool = Some wt" by auto
  let ?o = "if int rank = int n - 1 then lastOut s else nextOut"
  have o: "?o = outOf (lastOut s) c n rank"
    using Cons.prems(3) by (auto simp: outOf_def)
  let ?p = "\<lparr> Yaml = Yaml_Get y tool, InChan = nextIn, OutChan = ?o,
               Quiet = quiet, Silent = silent, Threads = threads, Rank = rank, Shed = shed \<rparr>"
  let ?s = "s\<lparr> chans := chans s @ [chanCap], launched := launched s @ [(wt, ?p)] \<rparr>"
  have step: "launchLoop shed y quiet silent threads n (tool # rest) rank nextIn nextOut s
      = launchLoop shed y quiet silent threads n rest (rank + 1) ?o (Some (length (chans s))) ?s"
    by (simp add: wt makeChan_def Let_def)
  have "\<exists>ls. launchLoop shed y quiet silent threads n rest (rank + 1) ?o (Some (length (chans s))) ?s
            = (None, ?s\<lparr> chans := chans ?s @ replicate (length rest) chanCap,
                         launched := launched ?s @ ls \<rparr>)
          \<and> length ls = length rest
          \<and> (\<forall>j<length rest. shed (rest ! j) = Some (fst (ls ! j))
                \<and> snd (ls ! j) = \<lparr> Yaml = Yaml_Get y (rest ! j),
                                    InChan = inOf reader (lastOut ?s) c n (rank + 1 + j),
                                    OutChan = outOf (lastOut ?s) c n (rank + 1 + j),
                                    Quiet = quiet, Silent = silent, Threads = threads,
                                    Rank = rank + 1 + j, Shed = shed \<rparr>)"
  proof (rule Cons.IH)
    show "\<forall>k\<in>set rest. shed k \<noteq> None" using Cons.prems(1) by simp
    show "n = rank + 1 + length rest" using Cons.prems(2) by simp
    show "Some (length (chans s)) = Some (c + (rank + 1))" using Cons.prems(4) by simp
    show "length (chans ?s) = c + (rank + 1) + 1" using Cons.prems(4) by simp
    show "?o = inOf reader (lastOut ?s) c n (rank + 1)" using o by (simp add: inOf_def)
  qed
  then obtain ls where run: "launchLoop shed y quiet silent threads n rest (rank + 1) ?o
        (Some (length (chans s))) ?s
      = (None, ?s\<lparr> chans := chans ?s @ replicate (length rest) chanCap,
                   launched := launched ?s @ ls \<rparr>)"
    and len: "length ls = length rest"
    and each: "\<forall>j<length rest. shed (rest ! j) = Some (fst (ls ! j))
                \<and> snd (ls ! j) = \<lparr> Yaml = Yaml_Get y (rest ! j),
                                    InChan = inOf reader (lastOut s) c n (rank + 1 + j),
                                    OutChan = outOf (lastOut s) c n (rank + 1 + j),
                                    Quiet = quiet, Silent = silent, Threads = threads,
                                    Rank = rank + 1 + j, Shed = shed \<rparr>"
    by auto
  let ?ls = "(wt, ?p) # ls"
  have "launchLoop shed y quiet silent threads n (tool # rest) rank nextIn nextOut s
      = (None, s\<lparr> chans := chans s @ replicate (length (tool # rest)) chanCap,
                   launched := launched s @ ?ls \<rparr>)"
    unfolding step run by (simp add: replicate_app_Cons_same)
  moreover have "length ?ls = length (tool # rest)" using len by simp
  moreover have "\<forall>j<length (tool # rest). shed ((tool # rest) ! j) = Some (fst (?ls ! j))
                \<and> snd (?ls ! j) = \<lparr> Yaml = Yaml_Get y ((tool # rest) ! j),
                                    InChan = inOf reader (lastOut s) c n (rank + j),
                                    OutChan = outOf (lastOut s) c n (rank + j),
                                    Quiet = quiet, Silent = silent, Threads = threads,
                                    Rank = rank + j, Shed = shed \<rparr>"
  proof (intro allI impI)
    fix j assume j: "j < length (tool # rest)"
    show "shed ((tool # rest) ! j) = Some (fst (?ls ! j))
                \<and> snd (?ls ! j) = \<lparr> Yaml = Yaml_Get y ((tool # rest) ! j),
                                    InChan = inOf reader (lastOut s) c n (rank + j),
                                    OutChan = outOf (lastOut s) c n (rank + j),
                                    Quiet = quiet, Silent = silent, Threads = threads,
                                    Rank = rank + j, Shed = shed \<rparr>"
    proof (cases j)
      case 0
      then show ?thesis using wt o Cons.prems(5) by simp
    next
      case (Suc i)
      with j have "i < length rest" by simp
      with each Suc show ?thesis by simp
    qed
  qed
  ultimately show ?case by blast
qed


lemma BamToolbox_setup:
  assumes cfg: "loadConfig NewYaml w toolYaml = Inr y"
    and keys: "Yaml_GetMapKeys y = Inr tkeys"
    and nonempty: "tkeys \<noteq> []"
    and nolist: "hd tkeys \<noteq> ''help''"
    and up: "startsUp bam_NewReader w y inFile outFile"
  shows "BamToolbox NewYaml bam_NewReader w toolYaml inFile outFile quiet silent threads =
     launchLoop NewToolshed y quiet silent threads (length (clearKeys tkeys)) (clearKeys tkeys) 0
       (Some 0) (Some 2) (setupState y outFile)"
proof -
  from nonempty obtain k ks where tk: "tkeys = k # ks" by (cases tkeys) auto
  with nolist have k: "k \<noteq> ''help''" by simp
  from up have inp: "inFile = ''-'' \<or> files w inFile \<noteq> None" by (simp add: startsUp_def)
  have rd: "NewBamReaderChan bam_NewReader w inFile chanCap ioBuff threads []
      = Inr (Some 0, bam_NewReader w (inputFile inFile), [chanCap])"
    using inp by (auto simp: NewBamReaderChan_def makeChan_def os_Open_def inputFile_def dom_def)
  show ?thesis
  proof (cases "sinkMode y")
    case True
    then have "Yaml_Bool (Yaml_Get y ''Sink'') = Inr True" by (simp add: sinkMode_def)
    then show ?thesis
      using True
      by (simp add: BamToolbox_def cfg keys tk k rd NewBamSinkChan_def makeChan_def
          clearKeys_def setupState_def Let_def numeral_2_eq_2 del: launchLoop.simps filter.simps)
  next
    case False
    with up obtain head where h: "bam_NewReader w (inputFile inFile) = Some head"
      and out: "outFile = ''-'' \<or> files w outFile \<noteq> None"
      by (auto simp: startsUp_def)
    have wr: "NewBamWriterChan w outFile head chanCap ioBuff threads [chanCap]
        = Inr (Some 1, outputFile outFile, [chanCap, ioBuff])"
      using out by (auto simp: NewBamWriterChan_def makeChan_def os_Open_def outputFile_def dom_def)
    from False have ns: "Yaml_Bool (Yaml_Get y ''Sink'') \<noteq> Inr True" by (simp add: sinkMode_def)
    show ?thesis
    proof (cases "Yaml_Bool (Yaml_Get y ''Sink'')")
      case (Inl err)
      then show ?thesis
        using False
        by (simp add: BamToolbox_def cfg keys tk k rd h wr makeChan_def
            clearKeys_def setupState_def Let_def numeral_2_eq_2 del: launchLoop.simps filter.simps)
    next
      case (Inr b)
      with ns have "b = False" by simp
      with Inr show ?thesis
        using False
        by (simp add: BamToolbox_def cfg keys tk k rd h wr makeChan_def
            clearKeys_def setupState_def Let_def numeral_2_eq_2 del: launchLoop.simps filter.simps)
    qed
  qed
qed


lemma twoStages_cfg:
  "loadConfig exNewYaml emptyOS twoStages
     = Inr (YMap [(''AccStats'', YMap [(''Tsv'', YString ''-'')]),
                  (''AlnContext'', YMap [(''Ref'', YString ''ref.fa'')]),
                  (''Sink'', YBool True)])"
  by (simp add: loadConfig_def exNewYaml_def twoStages_def)


lemma configText_loadConfig:
  assumes c: "configText NewYaml w toolYaml = Some t" and r: "NewYaml t = Inr y"
  shows "loadConfig NewYaml w toolYaml = Inr y"
proof -
  let ?t = "if toolYaml = ''help'' then ''help: true'' else toolYaml"
  from c obtain y0 where p0: "NewYaml ?t = Inr y0"
    by (cases "NewYaml ?t") (simp_all add: configText_def Let_def)
  from c p0 obtain ty where k0: "Yaml_GetMapKeys y0 = Inr ty"
    by (cases "Yaml_GetMapKeys y0") (simp_all add: configText_def Let_def)
  from c p0 k0 obtain k ks where ty: "ty = k # ks"
    by (cases ty) (simp_all add: configText_def Let_def)
  show ?thesis
  proof (cases "k = ''Yaml''")
    case False
    with c p0 k0 ty have "t = ?t" by (simp add: configText_def Let_def)
    with r p0 have "y0 = y" by simp
    with p0 k0 ty False show ?thesis by (simp add: loadConfig_def)
  next
    case True
    from c p0 k0 ty True obtain conf where s: "Yaml_String (Yaml_Get y0 ''Yaml'') = Inr conf"
      by (cases "Yaml_String (Yaml_Get y0 ''Yaml'')") (simp_all add: configText_def Let_def)
    from c p0 k0 ty True s have f: "ioutil_ReadFile w conf = Inr t"
      by (cases "ioutil_ReadFile w conf") (simp_all add: configText_def Let_def)
    from p0 k0 ty True s f r show ?thesis by (simp add: loadConfig_def)
  qed
qed

lemma render_ctxFirst:
  "render ctxFirst = ''{AlnContext: {Ref: ref.fa}, AccStats: {Tsv: -}, Sink: true}''"
  by (simp add: ctxFirst_def)

subsection \<open>The chain the orchestrator builds\<close>

lemma launched_chain:
  assumes cfg: "loadConfig NewYaml w toolYaml = Inr y"
    and keys: "Yaml_GetMapKeys y = Inr tkeys"
    and nonempty: "tkeys \<noteq> []"
    and nolist: "hd tkeys \<noteq> ''help''"
    and up: "startsUp bam_NewReader w y inFile outFile"
    and known: "\<forall>k\<in>set (clearKeys tkeys). NewToolshed k \<noteq> None"
  shows "\<exists>s. BamToolbox NewYaml bam_NewReader w toolYaml inFile outFile quiet silent threads
              = (None, s)
          \<and> map (Name \<circ> fst) (launched s) = clearKeys tkeys
          \<and> (\<forall>j<length (clearKeys tkeys).
                NewToolshed (clearKeys tkeys ! j) = Some (fst (launched s ! j))
              \<and> Yaml (snd (launched s ! j)) = Yaml_Get y (clearKeys tkeys ! j)
              \<and> Rank (snd (launched s ! j)) = j
              \<and> InChan (snd (launched s ! j))
                  = (if j = 0 then readerChan s else OutChan (snd (launched s ! (j - 1)))))
          \<and> (clearKeys tkeys \<noteq> [] \<longrightarrow> OutChan (snd (last (launched s))) = lastOut s)
          \<and> readerChan s \<noteq> None \<and> lastOut s \<noteq> None
          \<and> terminal s = Some (if sinkMode y then SinkTask else WriterTask (outputFile outFile))
          \<and> distinct (readerChan s # map (OutChan \<circ> snd) (launched s))"
proof -
  let ?ks = "clearKeys tkeys"
  let ?n = "length ?ks"
  let ?s0 = "setupState y outFile"
  have l0: "lastOut ?s0 = Some 1" and r0: "readerChan ?s0 = Some 0"
    and la0: "launched ?s0 = []" by (simp_all add: setupState_def)
  have "\<exists>ls. launchLoop NewToolshed y quiet silent threads ?n ?ks 0 (Some 0) (Some 2) ?s0
            = (None, ?s0\<lparr> chans := chans ?s0 @ replicate (length ?ks) chanCap,
                         launched := launched ?s0 @ ls \<rparr>)
          \<and> length ls = length ?ks
          \<and> (\<forall>j<length ?ks. NewToolshed (?ks ! j) = Some (fst (ls ! j))
                \<and> snd (ls ! j) = \<lparr> Yaml = Yaml_Get y (?ks ! j),
                                    InChan = inOf (Some 0) (lastOut ?s0) 2 ?n (0 + j),
                                    OutChan = outOf (lastOut ?s0) 2 ?n (0 + j),
                                    Quiet = quiet, Silent = silent, Threads = threads,
                                    Rank = 0 + j, Shed = NewToolshed \<rparr>)"
    by (rule launchLoop_ok[OF known]) (simp_all add: setupState_def inOf_def)
  then obtain ls where run: "launchLoop NewToolshed y quiet silent threads ?n ?ks 0 (Some 0) (Some 2) ?s0
            = (None, ?s0\<lparr> chans := chans ?s0 @ replicate ?n chanCap, launched := ls \<rparr>)"
    and len: "length ls = ?n"
    and reg: "\<And>j. j < ?n \<Longrightarrow> NewToolshed (?ks ! j) = Some (fst (ls ! j))"
    and par: "\<And>j. j < ?n \<Longrightarrow> snd (ls ! j) = \<lparr> Yaml = Yaml_Get y (?ks ! j),
                                    InChan = inOf (Some 0) (Some 1) 2 ?n j,
                                    OutChan = outOf (Some 1) 2 ?n j,
                                    Quiet = quiet, Silent = silent, Threads = threads,
                                    Rank = j, Shed = NewToolshed \<rparr>"
    by (auto simp: l0 la0)
  let ?s = "?s0\<lparr> chans := chans ?s0 @ replicate ?n chanCap, launched := ls \<rparr>"
  have res: "BamToolbox NewYaml bam_NewReader w toolYaml inFile outFile quiet silent threads
      = (None, ?s)"
    using BamToolbox_setup[OF cfg keys nonempty nolist up] run by simp
  have names: "map (Name \<circ> fst) ls = ?ks"
  proof (rule nth_equalityI)
    show "length (map (Name \<circ> fst) ls) = length ?ks" using len by simp
    fix j assume "j < length (map (Name \<circ> fst) ls)"
    then have j: "j < ?n" using len by simp
    from NewToolshed_Name[OF reg[OF j]] j len
    show "map (Name \<circ> fst) ls ! j = ?ks ! j" by simp
  qed
  have outs: "OutChan (snd (ls ! j)) = outOf (Some 1) 2 ?n j" if "j < ?n" for j
    using par[OF that] by simp
  have wiring: "\<forall>j<?n. NewToolshed (?ks ! j) = Some (fst (ls ! j))
              \<and> Yaml (snd (ls ! j)) = Yaml_Get y (?ks ! j)
              \<and> Rank (snd (ls ! j)) = j
              \<and> InChan (snd (ls ! j)) = (if j = 0 then Some 0 else OutChan (snd (ls ! (j - 1))))"
  proof (intro allI impI)
    fix j assume j: "j < ?n"
    have "InChan (snd (ls ! j)) = (if j = 0 then Some 0 else OutChan (snd (ls ! (j - 1))))"
    proof (cases j)
      case 0
      with par[OF j] show ?thesis by (simp add: inOf_def)
    next
      case (Suc i)
      with j have "i < ?n" by simp
      from outs[OF this] par[OF j] Suc show ?thesis by (simp add: inOf_def)
    qed
    with reg[OF j] par[OF j]
    show "NewToolshed (?ks ! j) = Some (fst (ls ! j))
              \<and> Yaml (snd (ls ! j)) = Yaml_Get y (?ks ! j)
              \<and> Rank (snd (ls ! j)) = j
              \<and> InChan (snd (ls ! j)) = (if j = 0 then Some 0 else OutChan (snd (ls ! (j - 1))))"
      by simp
  qed
  have lastc: "?ks \<noteq> [] \<longrightarrow> OutChan (snd (last ls)) = Some 1"
  proof
    assume ne: "?ks \<noteq> []"
    then have "ls \<noteq> []" using len by auto
    then have "last ls = ls ! (?n - 1)" using len by (simp add: last_conv_nth)
    moreover have "?n - 1 < ?n" using ne by simp
    ultimately show "OutChan (snd (last ls)) = Some 1"
      using outs[of "?n - 1"] ne by (simp add: outOf_def)
  qed
  have outmap: "map (OutChan \<circ> snd) ls = map (outOf (Some 1) 2 ?n) [0..<?n]"
  proof (rule nth_equalityI)
    show "length (map (OutChan \<circ> snd) ls) = length (map (outOf (Some 1) 2 ?n) [0..<?n])"
      using len by simp
    fix j assume "j < length (map (OutChan \<circ> snd) ls)"
    then have j: "j < ?n" using len by simp
    with outs[OF j] len show "map (OutChan \<circ> snd) ls ! j = map (outOf (Some 1) 2 ?n) [0..<?n] ! j"
      by simp
  qed
  have inj: "inj_on (outOf (Some 1) 2 ?n) {0..<?n}"
    by (rule inj_onI) (auto simp: outOf_def split: if_splits)
  have dist: "distinct (Some 0 # map (OutChan \<circ> snd) ls)"
    unfolding outmap using inj by (auto simp: distinct_map outOf_def split: if_splits)
  show ?thesis
    using res names wiring lastc dist len
    by (intro exI[of _ ?s]) (simp add: setupState_def)
qed

text \<open>
  C3. Take a configuration whose text writes the document \<open>YMap kvs\<close>, keys in document
  order, and a reader that returns this document. Let the configuration be no listing
  (its first key is not \<^verbatim>\<open>help\<close>), let its keys other than \<^verbatim>\<open>Sink\<close> all name registered
  stages, and let the reader and the terminal consumer be built. Then the orchestrator
  reaches its wait for the terminal consumer having started exactly one task per such
  key, in document key order: task \<open>j\<close> runs the stage registered under the \<open>j\<close>th of
  these keys with that key's parameters and rank \<open>j\<close>; its input channel is the reader's
  channel for \<open>j = 0\<close> and the output channel of task \<open>j - 1\<close> otherwise; the output
  channel of the last task is the channel of the terminal consumer (the sink or the
  writer); and the reader's channel and the output channels of the tasks are pairwise
  distinct.
\<close>

theorem BamToolbox_chain:
  assumes src: "configText NewYaml w toolYaml = Some (render (YMap kvs))"
    and reader: "NewYaml (render (YMap kvs)) = Inr (YMap kvs)"
    and nonempty: "kvs \<noteq> []"
    and nolist: "fst (hd kvs) \<noteq> ''help''"
    and up: "startsUp bam_NewReader w (YMap kvs) inFile outFile"
    and known: "\<forall>k\<in>set (clearKeys (map fst kvs)). NewToolshed k \<noteq> None"
  shows "\<exists>s. BamToolbox NewYaml bam_NewReader w toolYaml inFile outFile quiet silent threads
              = (None, s)
          \<and> map (Name \<circ> fst) (launched s) = filter (\<lambda>k. k \<noteq> ''Sink'') (map fst kvs)
          \<and> (\<forall>j<length (clearKeys (map fst kvs)).
                NewToolshed (clearKeys (map fst kvs) ! j) = Some (fst (launched s ! j))
              \<and> Yaml (snd (launched s ! j)) = Yaml_Get (YMap kvs) (clearKeys (map fst kvs) ! j)
              \<and> Rank (snd (launched s ! j)) = j
              \<and> InChan (snd (launched s ! j))
                  = (if j = 0 then readerChan s else OutChan (snd (launched s ! (j - 1)))))
          \<and> (clearKeys (map fst kvs) \<noteq> [] \<longrightarrow> OutChan (snd (last (launched s))) = lastOut s)
          \<and> readerChan s \<noteq> None \<and> lastOut s \<noteq> None
          \<and> terminal s
              = Some (if sinkMode (YMap kvs) then SinkTask else WriterTask (outputFile outFile))
          \<and> distinct (readerChan s # map (OutChan \<circ> snd) (launched s))"
proof -
  have cfg: "loadConfig NewYaml w toolYaml = Inr (YMap kvs)"
    by (rule configText_loadConfig[OF src reader])
  have keys: "Yaml_GetMapKeys (YMap kvs) = Inr (map fst kvs)" by simp
  have ne: "map fst kvs \<noteq> []" using nonempty by simp
  have nl: "hd (map fst kvs) \<noteq> ''help''" using nonempty nolist by (simp add: hd_map)
  have ck: "clearKeys (map fst kvs) = filter (\<lambda>k. k \<noteq> ''Sink'') (map fst kvs)"
    by (simp add: clearKeys_def paramFields_def)
  from launched_chain[OF cfg keys ne nl up known, of quiet silent threads]
  show ?thesis by (simp only: ck)
qed

theorem BamToolbox_chain_witness:
  "render ctxFirst = ''{AlnContext: {Ref: ref.fa}, AccStats: {Tsv: -}, Sink: true}''
   \<and> fst (BamToolbox exNewYaml exNewReader emptyOS (render ctxFirst) ''-'' ''-'' False False 1)
       = None
   \<and> map (Name \<circ> fst)
        (launched (snd (BamToolbox exNewYaml exNewReader emptyOS (render ctxFirst) ''-'' ''-''
                          False False 1)))
      = [''AlnContext'', ''AccStats'']"
proof -
  let ?kvs = "[(''AlnContext'', YMap [(''Ref'', YString ''ref.fa'')]),
               (''AccStats'', YMap [(''Tsv'', YString ''-'')]),
               (''Sink'', YBool True)]"
  have d: "ctxFirst = YMap ?kvs" by (simp add: ctxFirst_def)
  have reader: "exNewYaml (render (YMap ?kvs)) = Inr (YMap ?kvs)"
    using render_ctxFirst by (simp add: d exNewYaml_def)
  have src: "configText exNewYaml emptyOS (render ctxFirst) = Some (render (YMap ?kvs))"
    using render_ctxFirst by (simp add: d configText_def exNewYaml_def)
  have ne: "?kvs \<noteq> []" by simp
  have nl: "fst (hd ?kvs) \<noteq> ''help''" by simp
  have up: "startsUp exNewReader emptyOS (YMap ?kvs) ''-'' ''-''"
    by (simp add: startsUp_def sinkMode_def)
  have ck: "clearKeys (map fst ?kvs) = [''AlnContext'', ''AccStats'']"
    by (simp add: clearKeys_def paramFields_def)
  have known: "\<forall>k\<in>set (clearKeys (map fst ?kvs)). NewToolshed k \<noteq> None"
    unfolding ck by (simp add: NewToolshed_def)
  from BamToolbox_chain[OF src reader ne nl up known, of False False 1]
  obtain s where "BamToolbox exNewYaml exNewReader emptyOS (render ctxFirst) ''-'' ''-'' False False 1
        = (None, s)"
    and "map (Name \<circ> fst) (launched s) = filter (\<lambda>k. k \<noteq> ''Sink'') (map fst ?kvs)"
    by blast
  then show ?thesis using render_ctxFirst by simp
qed

subsection \<open>An unknown stage\<close>






subsection \<open>The capacity of the writer's channel\<close>

text \<open>
  C4. Without the key \<^verbatim>\<open>Sink\<close> the terminal consumer is the writer. The orchestrator
  passes \<^verbatim>\<open>chanCap\<close> and \<^verbatim>\<open>ioBuff\<close> to \<^verbatim>\<open>NewBamWriterChan\<close>, which makes its channel with
  \<^verbatim>\<open>buff\<close>: the writer's channel, channel 1, has the capacity 131072, the reader's
  channel and the stage channels have 5000.
\<close>

theorem writer_channel_capacity:
  "(case BamToolbox exNewYaml exNewReader emptyOS ''AccStats: {Tsv: -}'' ''-'' ''-'' False False 1 of
      (e, s) \<Rightarrow>
        e = None \<and> chans s = [5000, 131072, 5000, 5000] \<and> readerChan s = Some 0
        \<and> terminal s = Some (WriterTask Stdout) \<and> lastOut s = Some 1
        \<and> map (\<lambda>(t, p). (Name t, InChan p, OutChan p)) (launched s)
            = [(''AccStats'', Some 0, Some 1)])"
  by (simp add: BamToolbox_def loadConfig_def exNewYaml_def exNewReader_def NewBamReaderChan_def
      NewBamWriterChan_def makeChan_def paramFields_def Let_def chanCap_def ioBuff_def
      NewToolshed_def)

subsection \<open>The writer and a named destination\<close>

text \<open>
  C6. \<^verbatim>\<open>NewBamWriterChan\<close> opens a named destination with \<^verbatim>\<open>os.Open\<close>. When
  \<^verbatim>\<open>out.bam\<close> does not exist this is a fatal error; when it exists it is opened for
  reading, the write of the encoded stream fails, and the file keeps its content,
  whether the failure is noticed (a fatal error) or not.
\<close>

theorem writer_named_destination:
  "NewBamWriterChan emptyOS ''out.bam'' () chanCap ioBuff 1 [chanCap]
     = Inl (Fatal ''open out.bam: no such file or directory'')
   \<and> NewBamWriterChan osWithOut ''out.bam'' () chanCap ioBuff 1 [chanCap]
     = Inr (Some 1, OpenFile ''out.bam'' False, [chanCap, ioBuff])
   \<and> BamWriterTask exEncode False (OpenFile ''out.bam'' False) () [rec10] osWithOut
     = (None, osWithOut)
   \<and> BamWriterTask exEncode True (OpenFile ''out.bam'' False) () [rec10] osWithOut
     = (Some (Fatal ''bad file descriptor''), osWithOut)
   \<and> files osWithOut ''out.bam'' = Some ''old''"
  by (simp add: NewBamWriterChan_def makeChan_def os_Open_def emptyOS_def osWithOut_def
      BamWriterTask_def)

end
